theory Spec2Isabelle
  imports Main "HOL-Library.Word" "HOL-Library.Log_Nat" "HOL-Library.Multiset"
    "HOL-Library.List_Lexorder"
begin

section \<open>The JavaScript values the page computes with\<close>

subsection \<open>Strings\<close>

text \<open>
  A JavaScript string is a sequence of 16-bit code units. The descriptions and the
  category labels of the page are Cyrillic, so the model keeps code units rather than
  bytes. \<open>ascii\<close> writes an ASCII literal as such a sequence.
\<close>

type_synonym jsstring = "16 word list"

definition ascii :: "string \<Rightarrow> jsstring" where
  "ascii s = map (\<lambda>c. of_nat (of_char c)) s"

text \<open>
  White space as \<open>String.prototype.trim\<close>, the regular expression class \<open>\s\<close> and the
  string-to-number conversion understand it: the WhiteSpace and LineTerminator code points
  of ECMA-262 (tab, line feed, vertical tab, form feed, carriage return, space, no-break
  space, the Unicode space separators, line and paragraph separator, byte order mark).
\<close>

definition isWhiteSpace :: "16 word \<Rightarrow> bool" where
  "isWhiteSpace c \<longleftrightarrow>
     c = 0x9 \<or> c = 0xA \<or> c = 0xB \<or> c = 0xC \<or> c = 0xD \<or> c = 0x20 \<or> c = 0xA0 \<or>
     c = 0x1680 \<or> (0x2000 \<le> c \<and> c \<le> 0x200A) \<or> c = 0x2028 \<or> c = 0x2029 \<or>
     c = 0x202F \<or> c = 0x205F \<or> c = 0x3000 \<or> c = 0xFEFF"

definition trim :: "jsstring \<Rightarrow> jsstring" where
  \<comment> \<open>\<open>s.trim()\<close>\<close>
  "trim s = rev (dropWhile isWhiteSpace (rev (dropWhile isWhiteSpace s)))"

definition removeWhiteSpace :: "jsstring \<Rightarrow> jsstring" where
  \<comment> \<open>\<open>s.replace(/\s+/g, "")\<close>: every maximal run of white space is deleted\<close>
  "removeWhiteSpace s = filter (\<lambda>c. \<not> isWhiteSpace c) s"

fun replaceFirst :: "16 word \<Rightarrow> 16 word \<Rightarrow> jsstring \<Rightarrow> jsstring" where
  \<comment> \<open>\<open>s.replace(a, b)\<close> with one-character string patterns: only the first occurrence\<close>
  "replaceFirst a b [] = []"
| "replaceFirst a b (c # cs) = (if c = a then b # cs else c # replaceFirst a b cs)"

fun lexLess :: "jsstring \<Rightarrow> jsstring \<Rightarrow> bool" where
  \<comment> \<open>code-unit lexical order, the order of \<open><\<close> on strings\<close>
  "lexLess [] [] = False"
| "lexLess [] (y # ys) = True"
| "lexLess (x # xs) [] = False"
| "lexLess (x # xs) (y # ys) = (x < y \<or> (x = y \<and> lexLess xs ys))"

subsection \<open>Numbers\<close>

text \<open>
  A JavaScript Number is an IEEE 754 binary64 value: NaN, the two infinities, or a finite
  value, kept here as the rational it denotes. The two zeros are one value \<open>Fin 0\<close>:
  the page never divides by a computed number, and comparison, truthiness, \<open>String\<close> and
  JSON treat \<open>-0\<close> as \<open>0\<close>. Every arithmetic result passes through \<open>fl\<close>, rounding to
  the nearest binary64 value, ties to even, with overflow to infinity and gradual
  underflow.
\<close>

datatype jsnum = NaN | PInf | NInf | Fin rat

definition pow2 :: "int \<Rightarrow> rat" where
  "pow2 k = (if 0 \<le> k then 2 ^ nat k else 1 / 2 ^ nat (- k))"

definition ilog2 :: "rat \<Rightarrow> int" where
  \<comment> \<open>\<open>\<lfloor>log\<^sub>2 a\<rfloor>\<close> for \<open>a > 0\<close>, from the bit lengths of numerator and denominator\<close>
  "ilog2 a = (let (p, q) = quotient_of a; d = bitlen p - bitlen q
              in if pow2 d \<le> a then d else d - 1)"

definition roundHalfEven :: "rat \<Rightarrow> int" where
  "roundHalfEven m = (let f = \<lfloor>m\<rfloor>; r = m - of_int f
     in if r < 1/2 then f else if 1/2 < r then f + 1 else if even f then f else f + 1)"

definition fl :: "rat \<Rightarrow> jsnum" where
  \<comment> \<open>the Number value for a real: 53 significant bits, least exponent \<open>-1074\<close>\<close>
  "fl q = (if q = 0 then Fin 0 else
     let a = \<bar>q\<bar>; u = max (ilog2 a) (- 1022) - 52;
         r = of_int (roundHalfEven (a / pow2 u)) * pow2 u
     in if pow2 1024 \<le> r then (if 0 < q then PInf else NInf)
        else Fin (if 0 < q then r else - r))"

fun js_neg :: "jsnum \<Rightarrow> jsnum" where
  \<comment> \<open>unary \<open>-x\<close>\<close>
  "js_neg NaN = NaN"
| "js_neg PInf = NInf"
| "js_neg NInf = PInf"
| "js_neg (Fin a) = Fin (- a)"

fun js_mul :: "jsnum \<Rightarrow> jsnum \<Rightarrow> jsnum" where
  \<comment> \<open>\<open>x * y\<close>\<close>
  "js_mul (Fin a) (Fin b) = fl (a * b)"
| "js_mul NaN _ = NaN"
| "js_mul _ NaN = NaN"
| "js_mul PInf (Fin b) = (if b = 0 then NaN else if 0 < b then PInf else NInf)"
| "js_mul NInf (Fin b) = (if b = 0 then NaN else if 0 < b then NInf else PInf)"
| "js_mul (Fin a) PInf = (if a = 0 then NaN else if 0 < a then PInf else NInf)"
| "js_mul (Fin a) NInf = (if a = 0 then NaN else if 0 < a then NInf else PInf)"
| "js_mul PInf PInf = PInf"
| "js_mul PInf NInf = NInf"
| "js_mul NInf PInf = NInf"
| "js_mul NInf NInf = PInf"

fun js_div :: "jsnum \<Rightarrow> jsnum \<Rightarrow> jsnum" where
  \<comment> \<open>\<open>x / y\<close>; a zero divisor is read as \<open>+0\<close> (the page only divides by the literal 100)\<close>
  "js_div (Fin a) (Fin b) =
     (if b = 0 then (if a = 0 then NaN else if 0 < a then PInf else NInf) else fl (a / b))"
| "js_div NaN _ = NaN"
| "js_div _ NaN = NaN"
| "js_div PInf (Fin b) = (if 0 \<le> b then PInf else NInf)"
| "js_div NInf (Fin b) = (if 0 \<le> b then NInf else PInf)"
| "js_div (Fin a) PInf = Fin 0"
| "js_div (Fin a) NInf = Fin 0"
| "js_div PInf PInf = NaN"
| "js_div PInf NInf = NaN"
| "js_div NInf PInf = NaN"
| "js_div NInf NInf = NaN"

fun js_sub :: "jsnum \<Rightarrow> jsnum \<Rightarrow> jsnum" where
  \<comment> \<open>\<open>x - y\<close>\<close>
  "js_sub (Fin a) (Fin b) = fl (a - b)"
| "js_sub NaN _ = NaN"
| "js_sub _ NaN = NaN"
| "js_sub PInf PInf = NaN"
| "js_sub NInf NInf = NaN"
| "js_sub PInf _ = PInf"
| "js_sub NInf _ = NInf"
| "js_sub (Fin a) PInf = NInf"
| "js_sub (Fin a) NInf = PInf"

fun Math_round :: "jsnum \<Rightarrow> jsnum" where
  \<comment> \<open>\<open>Math.round(x)\<close>: the nearest integer, a half rounding up\<close>
  "Math_round (Fin a) = Fin (of_int \<lfloor>a + 1/2\<rfloor>)"
| "Math_round x = x"

fun Number_isNaN :: "jsnum \<Rightarrow> bool" where
  "Number_isNaN NaN = True"
| "Number_isNaN _ = False"

fun js_le :: "jsnum \<Rightarrow> jsnum \<Rightarrow> bool" where
  \<comment> \<open>\<open>x <= y\<close>: false as soon as one side is NaN\<close>
  "js_le NaN _ = False"
| "js_le _ NaN = False"
| "js_le NInf _ = True"
| "js_le _ PInf = True"
| "js_le PInf _ = False"
| "js_le _ NInf = False"
| "js_le (Fin a) (Fin b) = (a \<le> b)"

fun js_lt :: "jsnum \<Rightarrow> jsnum \<Rightarrow> bool" where
  \<comment> \<open>\<open>x < y\<close>\<close>
  "js_lt NaN _ = False"
| "js_lt _ NaN = False"
| "js_lt PInf _ = False"
| "js_lt _ NInf = False"
| "js_lt NInf _ = True"
| "js_lt _ PInf = True"
| "js_lt (Fin a) (Fin b) = (a < b)"

fun truthy :: "jsnum \<Rightarrow> bool" where
  \<comment> \<open>ToBoolean on a Number: NaN and zero are falsy\<close>
  "truthy NaN = False"
| "truthy (Fin a) = (a \<noteq> 0)"
| "truthy _ = True"

definition js_or :: "jsnum \<Rightarrow> jsnum \<Rightarrow> jsnum" where
  \<comment> \<open>\<open>x || y\<close> on Numbers\<close>
  "js_or x y = (if truthy x then x else y)"

subsection \<open>String to Number\<close>

text \<open>
  \<open>Number(s)\<close> follows the StringNumericLiteral grammar of ECMA-262: white space is
  trimmed; the empty string is 0; then a binary, octal or hexadecimal integer
  (\<open>0b\<close>, \<open>0o\<close>, \<open>0x\<close>, unsigned), or an optionally signed decimal literal
  (\<open>Infinity\<close>, or digits with an optional fraction and an optional exponent); anything
  else is NaN. The mathematical value is rounded by \<open>fl\<close> (for literals of more than 20
  significant digits ECMA-262 also allows the rounding of the literal cut at the 20th
  digit; the engines round correctly, as here).
\<close>

definition isDecimalDigit :: "16 word \<Rightarrow> bool" where
  "isDecimalDigit c \<longleftrightarrow> 0x30 \<le> c \<and> c \<le> 0x39"

definition digitValue :: "16 word \<Rightarrow> nat" where
  "digitValue c =
     (if 0x30 \<le> c \<and> c \<le> 0x39 then unat c - 0x30
      else if 0x61 \<le> c \<and> c \<le> 0x66 then unat c - 0x61 + 10
      else if 0x41 \<le> c \<and> c \<le> 0x46 then unat c - 0x41 + 10
      else 0)"

definition isDigitOf :: "nat \<Rightarrow> 16 word \<Rightarrow> bool" where
  "isDigitOf radix c \<longleftrightarrow>
     ((0x30 \<le> c \<and> c \<le> 0x39) \<or> (0x61 \<le> c \<and> c \<le> 0x66) \<or> (0x41 \<le> c \<and> c \<le> 0x46))
     \<and> digitValue c < radix"

definition digitsMV :: "nat \<Rightarrow> jsstring \<Rightarrow> nat" where
  "digitsMV radix ds = foldl (\<lambda>acc c. acc * radix + digitValue c) 0 ds"

definition pow10 :: "int \<Rightarrow> rat" where
  "pow10 k = (if 0 \<le> k then 10 ^ nat k else 1 / 10 ^ nat (- k))"

definition signedInteger :: "jsstring \<Rightarrow> int option" where
  "signedInteger s =
     (let (neg, ds) = (case s of [] \<Rightarrow> (False, [])
                        | c # t \<Rightarrow> if c = 0x2D then (True, t) else if c = 0x2B then (False, t)
                                  else (False, s))
      in if ds = [] \<or> \<not> list_all isDecimalDigit ds then None
         else Some (if neg then - int (digitsMV 10 ds) else int (digitsMV 10 ds)))"

definition exponentPart :: "jsstring \<Rightarrow> int option" where
  "exponentPart s =
     (case s of [] \<Rightarrow> Some 0
      | c # t \<Rightarrow> if c = 0x65 \<or> c = 0x45 then signedInteger t else None)"

definition strUnsignedDecimalLiteral :: "jsstring \<Rightarrow> jsnum option" where
  "strUnsignedDecimalLiteral s =
     (if s = ascii ''Infinity'' then Some PInf else
      let ip = takeWhile isDecimalDigit s; r1 = dropWhile isDecimalDigit s;
          (fp, r2) = (case r1 of [] \<Rightarrow> ([], [])
                      | c # t \<Rightarrow> if c = 0x2E
                          then (takeWhile isDecimalDigit t, dropWhile isDecimalDigit t)
                          else ([], r1))
      in if ip = [] \<and> fp = [] then None
         else case exponentPart r2 of None \<Rightarrow> None
              | Some e \<Rightarrow> Some (fl (of_nat (digitsMV 10 (ip @ fp)) * pow10 (e - int (length fp)))))"

definition strDecimalLiteral :: "jsstring \<Rightarrow> jsnum option" where
  "strDecimalLiteral s =
     (case s of [] \<Rightarrow> None
      | c # t \<Rightarrow> if c = 0x2D then map_option js_neg (strUnsignedDecimalLiteral t)
                else if c = 0x2B then strUnsignedDecimalLiteral t
                else strUnsignedDecimalLiteral s)"

definition nonDecimalIntegerLiteral :: "jsstring \<Rightarrow> jsnum option" where
  "nonDecimalIntegerLiteral s =
     (case s of c0 # c1 # ds \<Rightarrow>
        (let radix = (if c1 = 0x78 \<or> c1 = 0x58 then 16
                      else if c1 = 0x6F \<or> c1 = 0x4F then 8
                      else if c1 = 0x62 \<or> c1 = 0x42 then 2 else 0)
         in if c0 = 0x30 \<and> radix \<noteq> 0 \<and> ds \<noteq> [] \<and> list_all (isDigitOf radix) ds
            then Some (fl (of_nat (digitsMV radix ds))) else None)
      | _ \<Rightarrow> None)"

definition Number :: "jsstring \<Rightarrow> jsnum" where
  \<comment> \<open>\<open>Number(s)\<close> on a string\<close>
  "Number s =
     (let t = trim s
      in if t = [] then Fin 0
         else case nonDecimalIntegerLiteral t of Some n \<Rightarrow> n
              | None \<Rightarrow> (case strDecimalLiteral t of Some n \<Rightarrow> n | None \<Rightarrow> NaN))"

section \<open>The data model of \<open>src/app/page.tsx\<close>\<close>

text \<open>
  \<open>CategoryKey\<close> is the union of six string literals:
  \<open>Eda\<close> "\<open>U+0415 0434 0430\<close>", \<open>Transport\<close>, \<open>Zhilyo\<close>, \<open>Razvlecheniya\<close>,
  \<open>Obrazovanie\<close>, \<open>Drugoe\<close>, in the order of the source. \<open>categoryLabel\<close> gives the
  code units of each literal.
\<close>

datatype CategoryKey = Eda | Transport | Zhilyo | Razvlecheniya | Obrazovanie | Drugoe

fun categoryLabel :: "CategoryKey \<Rightarrow> jsstring" where
  "categoryLabel Eda = [0x415, 0x434, 0x430]"
| "categoryLabel Transport = [0x422, 0x440, 0x430, 0x43D, 0x441, 0x43F, 0x43E, 0x440, 0x442]"
| "categoryLabel Zhilyo = [0x416, 0x438, 0x43B, 0x44C, 0x451]"
| "categoryLabel Razvlecheniya =
     [0x420, 0x430, 0x437, 0x432, 0x43B, 0x435, 0x447, 0x435, 0x43D, 0x438, 0x44F]"
| "categoryLabel Obrazovanie =
     [0x41E, 0x431, 0x440, 0x430, 0x437, 0x43E, 0x432, 0x430, 0x43D, 0x438, 0x435]"
| "categoryLabel Drugoe = [0x414, 0x440, 0x443, 0x433, 0x43E, 0x435]"

text \<open>The type \<open>Expense\<close>; the field \<open>id\<close> is \<open>id'\<close> here.\<close>

record Expense =
  id' :: jsstring
  description :: jsstring
  category :: CategoryKey
  date :: jsstring
  amount :: jsnum

text \<open>
  The filter state has type \<open>CategoryKey | "Vse"\<close> (the sentinel, "\<open>U+0412 0441 0435\<close>"):
  \<open>Vse\<close> is the sentinel, \<open>Only c\<close> a category.
\<close>

datatype CategoryFilter = Vse | Only CategoryKey

datatype SortKey = SortDate | SortAmount | SortDescription

datatype SortDir = Asc | Desc

text \<open>
  The state of the component \<open>Home\<close>: the collection, the four fields of the form
  (\<open>description\<close>, \<open>category\<close>, \<open>date\<close>, \<open>amount\<close> in the source, prefixed here since the
  record \<open>Expense\<close> has fields of the same names), the filter and sort selection and the
  row being edited.
\<close>

record Home =
  expenses :: "Expense list"
  form_description :: jsstring
  form_category :: CategoryKey
  form_date :: jsstring
  form_amount :: jsstring
  filterCategory :: CategoryFilter
  sortKey :: SortKey
  sortDir :: SortDir
  editingId :: "jsstring option"

section \<open>The projection \<open>filteredSorted\<close>\<close>

text \<open>
  \<open>String.prototype.localeCompare\<close> is the engine's collation: ECMA-262 leaves its values
  implementation-defined, so it is a parameter of the model, taking the optional locale
  argument and the two strings.
\<close>

type_synonym localeCompare = "jsstring option \<Rightarrow> jsstring \<Rightarrow> jsstring \<Rightarrow> jsnum"

definition compareFn ::
  "localeCompare \<Rightarrow> SortKey \<Rightarrow> SortDir \<Rightarrow> Expense \<Rightarrow> Expense \<Rightarrow> jsnum" where
  \<comment> \<open>the arrow function given to \<open>sort\<close>\<close>
  "compareFn lc key dir a b =
     (let cmp = Fin 0;
          cmp = (if key = SortDate then lc None (date a) (date b) else cmp);
          cmp = (if key = SortAmount then js_sub (amount a) (amount b) else cmp);
          cmp = (if key = SortDescription
                 then lc (Some (ascii ''ru'')) (description a) (description b) else cmp)
      in if dir = Asc then cmp else js_neg cmp)"

text \<open>
  \<open>Array.prototype.sort\<close> with a comparator. ECMA-262 reads a comparator result \<open>v\<close> by
  \<open>v < 0\<close>, \<open>v > 0\<close>, NaN counting as 0, and requires the sort to be stable. For a
  comparator that is consistent on the elements, the result is thereby fixed: the
  elements in comparator order, those comparing equal in their order of the input; the
  stable insertion sort below computes it. For a comparator that is not consistent (an
  amount that is NaN) the order is left to the engine, and the model says nothing of it:
  what is proved of the order of a projection assumes a consistent comparator.
\<close>

definition comesAfter :: "('a \<Rightarrow> 'a \<Rightarrow> jsnum) \<Rightarrow> 'a \<Rightarrow> 'a \<Rightarrow> bool" where
  \<comment> \<open>the comparator puts \<open>x\<close> after \<open>y\<close>: its result is \<open>> 0\<close>\<close>
  "comesAfter cmp x y = js_lt (Fin 0) (cmp x y)"

fun insertSorted :: "('a \<Rightarrow> 'a \<Rightarrow> jsnum) \<Rightarrow> 'a \<Rightarrow> 'a list \<Rightarrow> 'a list" where
  "insertSorted cmp x [] = [x]"
| "insertSorted cmp x (y # ys) =
     (if comesAfter cmp x y then y # insertSorted cmp x ys else x # y # ys)"

fun Array_sort :: "('a \<Rightarrow> 'a \<Rightarrow> jsnum) \<Rightarrow> 'a list \<Rightarrow> 'a list" where
  "Array_sort cmp [] = []"
| "Array_sort cmp (x # xs) = insertSorted cmp x (Array_sort cmp xs)"

definition byCategory :: "Expense list \<Rightarrow> CategoryFilter \<Rightarrow> Expense list" where
  "byCategory es fc =
     (if fc = Vse then es else filter (\<lambda>e. Only (category e) = fc) es)"

definition filteredSorted ::
  "localeCompare \<Rightarrow> Expense list \<Rightarrow> CategoryFilter \<Rightarrow> SortKey \<Rightarrow> SortDir \<Rightarrow> Expense list" where
  "filteredSorted lc es fc key dir = Array_sort (compareFn lc key dir) (byCategory es fc)"

section \<open>The operations on the collection\<close>

definition resetForm :: "jsstring \<Rightarrow> Home \<Rightarrow> Home" where
  \<comment> \<open>\<open>today\<close> is \<open>new Date().toISOString().slice(0, 10)\<close> at the time of the call\<close>
  "resetForm today st =
     st\<lparr>form_description := [], form_category := Eda, form_date := today, form_amount := []\<rparr>"

definition parseAmount :: "jsstring \<Rightarrow> jsnum" where
  \<comment> \<open>\<open>Number(s.replace(/\s+/g, "").replace(",", "."))\<close>, as \<open>handleAdd\<close> and the row
      editor both write it\<close>
  "parseAmount s = Number (replaceFirst 0x2C 0x2E (removeWhiteSpace s))"

definition roundAmount :: "jsnum \<Rightarrow> jsnum" where
  \<comment> \<open>\<open>Math.round(x * 100) / 100\<close>\<close>
  "roundAmount x = js_div (Math_round (js_mul x (Fin 100))) (Fin 100)"

definition handleAdd :: "jsstring \<Rightarrow> jsstring \<Rightarrow> Home \<Rightarrow> Home" where
  \<comment> \<open>\<open>uuid\<close> is what \<open>crypto.randomUUID()\<close> returns in this call\<close>
  "handleAdd uuid today st =
     (let parsedAmount = parseAmount (form_amount st)
      in if trim (form_description st) = [] \<or> form_date st = [] \<or>
            Number_isNaN parsedAmount \<or> js_le parsedAmount (Fin 0)
         then st
         else
           let next = \<lparr>id' = uuid,
                       description = trim (form_description st),
                       category = form_category st,
                       date = form_date st,
                       amount = roundAmount parsedAmount\<rparr>
           in resetForm today (st\<lparr>expenses := next # expenses st\<rparr>))"

definition handleDelete :: "jsstring \<Rightarrow> Home \<Rightarrow> Home" where
  "handleDelete i st = st\<lparr>expenses := filter (\<lambda>e. id' e \<noteq> i) (expenses st)\<rparr>"

definition startEdit :: "jsstring \<Rightarrow> Home \<Rightarrow> Home" where
  "startEdit i st = st\<lparr>editingId := Some i\<rparr>"

definition saveEdit :: "Expense \<Rightarrow> Home \<Rightarrow> Home" where
  "saveEdit updated st =
     st\<lparr>expenses := map (\<lambda>e. if id' e = id' updated then updated else e) (expenses st),
        editingId := None\<rparr>"

subsection \<open>The row editor\<close>

text \<open>
  \<open>Row\<close> keeps a working copy \<open>local\<close> of its record; each input's \<open>onChange\<close> replaces
  one field of the copy, and Enter or a click outside the row calls \<open>onSave(local)\<close>, which
  is \<open>saveEdit\<close>.
\<close>

definition onChangeDescription :: "Expense \<Rightarrow> jsstring \<Rightarrow> Expense" where
  "onChangeDescription local v = local\<lparr>description := v\<rparr>"

definition onChangeCategory :: "Expense \<Rightarrow> CategoryKey \<Rightarrow> Expense" where
  "onChangeCategory local v = local\<lparr>category := v\<rparr>"

definition onChangeDate :: "Expense \<Rightarrow> jsstring \<Rightarrow> Expense" where
  "onChangeDate local v = local\<lparr>date := v\<rparr>"

definition onChangeAmount :: "Expense \<Rightarrow> jsstring \<Rightarrow> Expense" where
  "onChangeAmount local v = local\<lparr>amount := js_or (parseAmount v) (Fin 0)\<rparr>"

section \<open>Persistence\<close>

text \<open>
  The page writes \<open>JSON.stringify(expenses)\<close> to the slot \<open>wallet.expenses\<close> and at start
  reads it back with \<open>JSON.parse\<close>, without validating the result. \<open>jsvalue\<close> is the
  untyped value at run time, \<open>json\<close> the syntax tree of a JSON text. A number token is
  identified with the finite Number it denotes: \<open>JSON.stringify\<close> prints a finite Number
  with the digits of \<open>Number::toString\<close>, which \<open>JSON.parse\<close> reads back as the same Number
  (ECMA-262); likewise a string token stands for the code units it encodes. An object is
  the list of its properties in creation order; the engine lists properties whose keys
  are array indices first, and the objects of the page have none.
\<close>

datatype json =
  JNull | JBool bool | JNumber rat | JString jsstring
| JArray "json list" | JObject "(jsstring \<times> json) list"

datatype jsvalue =
  VNull | VBool bool | VNumber jsnum | VString jsstring
| VArray "jsvalue list" | VObject "(jsstring \<times> jsvalue) list"

primrec JSON_stringify :: "jsvalue \<Rightarrow> json" where
  \<comment> \<open>a Number that is not finite is written as \<open>null\<close>\<close>
  "JSON_stringify VNull = JNull"
| "JSON_stringify (VBool b) = JBool b"
| "JSON_stringify (VNumber n) = (case n of Fin q \<Rightarrow> JNumber q | _ \<Rightarrow> JNull)"
| "JSON_stringify (VString s) = JString s"
| "JSON_stringify (VArray vs) = JArray (map JSON_stringify vs)"
| "JSON_stringify (VObject ps) = JObject (map (map_prod (\<lambda>k. k) JSON_stringify) ps)"

fun createDataProperty ::
  "(jsstring \<times> jsvalue) list \<Rightarrow> jsstring \<times> jsvalue \<Rightarrow> (jsstring \<times> jsvalue) list" where
  \<comment> \<open>a repeated key keeps its place and takes the later value\<close>
  "createDataProperty [] (k, v) = [(k, v)]"
| "createDataProperty ((k', v') # ps) (k, v) =
     (if k' = k then (k, v) # ps else (k', v') # createDataProperty ps (k, v))"

primrec JSON_parse :: "json \<Rightarrow> jsvalue" where
  "JSON_parse JNull = VNull"
| "JSON_parse (JBool b) = VBool b"
| "JSON_parse (JNumber q) = VNumber (Fin q)"
| "JSON_parse (JString s) = VString s"
| "JSON_parse (JArray js) = VArray (map JSON_parse js)"
| "JSON_parse (JObject ms) =
     VObject (foldl createDataProperty [] (map (map_prod (\<lambda>k. k) JSON_parse) ms))"

definition Expense_value :: "Expense \<Rightarrow> jsvalue" where
  \<comment> \<open>the object an \<open>Expense\<close> is at run time\<close>
  "Expense_value e = VObject
     [(ascii ''id'', VString (id' e)),
      (ascii ''description'', VString (description e)),
      (ascii ''category'', VString (categoryLabel (category e))),
      (ascii ''date'', VString (date e)),
      (ascii ''amount'', VNumber (amount e))]"

definition expenses_value :: "Expense list \<Rightarrow> jsvalue" where
  "expenses_value es = VArray (map Expense_value es)"

text \<open>
  What \<open>localStorage.getItem("wallet.expenses")\<close> finds: nothing (\<open>null\<close>), a string that
  is empty or not a JSON text (\<open>JSON.parse\<close> throws, and the \<open>catch\<close> swallows it), or a JSON
  text.
\<close>

datatype item = Absent | Malformed | Text json

definition persist :: "Expense list \<Rightarrow> item" where
  \<comment> \<open>\<open>localStorage.setItem("wallet.expenses", JSON.stringify(expenses))\<close>\<close>
  "persist es = Text (JSON_stringify (expenses_value es))"

definition loadExpenses :: "item \<Rightarrow> jsvalue \<Rightarrow> jsvalue" where
  \<comment> \<open>the first effect: the state \<open>expenses\<close> after it, from the state before it\<close>
  "loadExpenses raw current = (case raw of Text j \<Rightarrow> JSON_parse j | _ \<Rightarrow> current)"

section \<open>The state at start and the inputs used as examples\<close>

definition initialHome :: "jsstring \<Rightarrow> Home" where
  \<comment> \<open>the \<open>useState\<close> initial values; \<open>today\<close> is the date at the first render\<close>
  "initialHome today =
     \<lparr>expenses = [], form_description = [], form_category = Eda, form_date = today,
      form_amount = [], filterCategory = Vse, sortKey = SortDate, sortDir = Desc,
      editingId = None\<rparr>"

definition fillForm :: "jsstring \<Rightarrow> CategoryKey \<Rightarrow> jsstring \<Rightarrow> jsstring \<Rightarrow> Home \<Rightarrow> Home" where
  \<comment> \<open>the four inputs of the form, each calling its setter with the value entered\<close>
  "fillForm d c dt a st =
     st\<lparr>form_description := d, form_category := c, form_date := dt, form_amount := a\<rparr>"

definition kofe :: jsstring where
  \<comment> \<open>the description of the spec's example, "\<open>U+041A 043E 0444 0435\<close>"\<close>
  "kofe = [0x41A, 0x43E, 0x444, 0x435]"

definition exampleForm :: "jsstring \<Rightarrow> Home" where
  \<comment> \<open>the form of the spec's example, with the amount input left open\<close>
  "exampleForm a = fillForm kofe Eda (ascii ''2024-01-05'') a (initialHome (ascii ''2024-02-01''))"

definition coffee :: Expense where
  "coffee = \<lparr>id' = ascii ''id-1'', description = kofe, category = Eda,
             date = ascii ''2024-01-05'', amount = Fin (399 / 2)\<rparr>"

definition taxi :: Expense where
  "taxi = \<lparr>id' = ascii ''id-2'', description = ascii ''Taxi'', category = Transport,
           date = ascii ''2024-01-07'', amount = Fin 300\<rparr>"

definition twoRows :: Home where
  "twoRows = (initialHome (ascii ''2024-02-01''))\<lparr>expenses := [taxi, coffee]\<rparr>"

text \<open>
  The spec's words for the amount of a new record, "the input rounded to 2 decimal
  places": the multiple of \<open>1/100\<close> nearest to the value, a half rounding up.
\<close>

definition roundTo2Decimals :: "rat \<Rightarrow> rat" where
  "roundTo2Decimals q = of_int \<lfloor>q * 100 + 1/2\<rfloor> / 100"

text \<open>
  The rounding error of a product: \<open>halfUlp x\<close> is half a unit in the last place of the
  binary64 values around \<open>x\<close>, the most by which \<open>fl x\<close> differs from \<open>x\<close>;
  \<open>midpointDistance x\<close> is how far \<open>x\<close> lies from the midpoint \<open>k + 1/2\<close> of the two integers
  around it, where \<open>Math.round\<close> changes its answer.
\<close>

definition halfUlp :: "rat \<Rightarrow> rat" where
  "halfUlp x = pow2 (max (ilog2 x) (- 1022) - 53)"

definition midpointDistance :: "rat \<Rightarrow> rat" where
  "midpointDistance x = \<bar>x - (of_int \<lfloor>x\<rfloor> + 1/2)\<bar>"

definition amount1234 :: rat where
  \<comment> \<open>the Number that the input \<open>12,34\<close> denotes\<close>
  "amount1234 = 3473401212609495 / 281474976710656"

definition amount595 :: rat where
  \<comment> \<open>the Number that the input \<open>0.595\<close> denotes, a little below 0.595\<close>
  "amount595 = 2679641778285445 / 4503599627370496"

definition hugeAmount :: rat where
  \<comment> \<open>the Number that the input \<open>1e308\<close> denotes\<close>
  "hugeAmount = 5010420900022432 * 2 ^ 971"

definition roundedCoffee :: Expense where
  "roundedCoffee = coffee\<lparr>id' := ascii ''id-3''\<rparr>"

definition bus :: Expense where
  \<comment> \<open>same amount as \<open>taxi\<close>\<close>
  "bus = \<lparr>id' = ascii ''id-4'', description = ascii ''Bus'', category = Transport,
          date = ascii ''2024-01-09'', amount = Fin 300\<rparr>"

subsection \<open>Predicates of the properties\<close>

fun precedes :: "'a \<Rightarrow> 'a \<Rightarrow> 'a list \<Rightarrow> bool" where
  \<comment> \<open>an occurrence of \<open>a\<close> comes before an occurrence of \<open>b\<close>\<close>
  "precedes a b [] = False"
| "precedes a b (x # xs) = ((x = a \<and> b \<in> set xs) \<or> precedes a b xs)"

definition comparesEqual :: "jsnum \<Rightarrow> bool" where
  \<comment> \<open>a comparator result that \<open>sort\<close> reads as 0: neither \<open>< 0\<close> nor \<open>> 0\<close>\<close>
  "comparesEqual v \<longleftrightarrow> \<not> js_lt v (Fin 0) \<and> \<not> js_lt (Fin 0) v"

fun Number_isFinite :: "jsnum \<Rightarrow> bool" where
  "Number_isFinite (Fin a) = True"
| "Number_isFinite _ = False"

definition cmpSign :: "jsnum \<Rightarrow> int" where
  \<comment> \<open>how \<open>sort\<close> reads a comparator result: below zero, above zero, or zero (NaN too)\<close>
  "cmpSign v = (if js_lt v (Fin 0) then - 1 else if js_lt (Fin 0) v then 1 else 0)"

text \<open>
  A consistent comparator for a set of values, in the words of ECMA-262: every value
  compares equal to itself; equality is symmetric and transitive; "less" is transitive;
  "greater" is transitive. Only for such a comparator does ECMA-262 fix the order that
  \<open>sort\<close> returns.
\<close>

definition consistentComparator :: "('a \<Rightarrow> 'a \<Rightarrow> jsnum) \<Rightarrow> 'a list \<Rightarrow> bool" where
  "consistentComparator cmp xs \<longleftrightarrow>
     (\<forall>a\<in>set xs. \<forall>b\<in>set xs. \<forall>c\<in>set xs.
        cmpSign (cmp a a) = 0 \<and>
        (cmpSign (cmp a b) = 0 \<longrightarrow> cmpSign (cmp b a) = 0) \<and>
        (cmpSign (cmp a b) = 0 \<and> cmpSign (cmp b c) = 0 \<longrightarrow> cmpSign (cmp a c) = 0) \<and>
        (cmpSign (cmp a b) = - 1 \<and> cmpSign (cmp b c) = - 1 \<longrightarrow> cmpSign (cmp a c) = - 1) \<and>
        (cmpSign (cmp a b) = 1 \<and> cmpSign (cmp b c) = 1 \<longrightarrow> cmpSign (cmp a c) = 1))"


subsection \<open>Collation\<close>

definition threeWay :: "jsstring \<Rightarrow> jsstring \<Rightarrow> jsnum" where
  \<comment> \<open>the three-way comparison of two strings by code units\<close>
  "threeWay x y = (if lexLess x y then Fin (- 1) else if lexLess y x then Fin 1 else Fin 0)"


definition codeUnitCollation :: localeCompare where
  \<comment> \<open>a \<open>localeCompare\<close> that orders by code units, whatever the locale; the examples
      use it\<close>
  "codeUnitCollation loc x y = threeWay x y"

subsection \<open>A sequence of additions\<close>

text \<open>
  One use of the form: the values entered in the four inputs, then a click on the
  button, with what \<open>crypto.randomUUID()\<close> and the clock give in that call.
\<close>

record Submission =
  sub_uuid :: jsstring
  sub_today :: jsstring
  sub_description :: jsstring
  sub_category :: CategoryKey
  sub_date :: jsstring
  sub_amount :: jsstring

definition submit :: "Submission \<Rightarrow> Home \<Rightarrow> Home" where
  "submit s st =
     handleAdd (sub_uuid s) (sub_today s)
       (fillForm (sub_description s) (sub_category s) (sub_date s) (sub_amount s) st)"

definition submitAll :: "Submission list \<Rightarrow> Home \<Rightarrow> Home" where
  "submitAll ss st = foldl (\<lambda>st s. submit s st) st ss"

definition accepted :: "Submission \<Rightarrow> bool" where
  \<comment> \<open>the addition succeeds\<close>
  "accepted s \<longleftrightarrow>
     \<not> list_all isWhiteSpace (sub_description s) \<and> sub_date s \<noteq> [] \<and>
     js_lt (Fin 0) (parseAmount (sub_amount s))"

definition created :: "Submission \<Rightarrow> Expense" where
  \<comment> \<open>the record a successful addition creates\<close>
  "created s =
     \<lparr>id' = sub_uuid s, description = trim (sub_description s), category = sub_category s,
      date = sub_date s, amount = roundAmount (parseAmount (sub_amount s))\<rparr>"

definition firstSubmission :: Submission where
  "firstSubmission =
     \<lparr>sub_uuid = ascii ''id-1'', sub_today = ascii ''2024-02-01'', sub_description = kofe,
      sub_category = Eda, sub_date = ascii ''2024-01-05'', sub_amount = ascii ''199,5''\<rparr>"

definition secondSubmission :: Submission where
  "secondSubmission =
     \<lparr>sub_uuid = ascii ''id-2'', sub_today = ascii ''2024-02-01'', sub_description = ascii ''Taxi'',
      sub_category = Transport, sub_date = ascii ''2024-01-07'', sub_amount = ascii ''199,5''\<rparr>"

section \<open>Evaluating the number model\<close>

lemma floor_rat_numeral [simp]:
  "\<lfloor>(numeral a :: rat) / numeral b\<rfloor> = numeral a div numeral b"
  using floor_divide_of_int_eq [of "numeral a" "numeral b", where ?'a = rat] by simp

lemma pow2_pos [simp]: "0 < pow2 k"
  by (simp add: pow2_def)

lemma pow2_eq_power_int: "pow2 k = power_int 2 k"
  by (simp add: pow2_def power_int_def inverse_eq_divide power_one_over)

lemma pow2_add: "pow2 (j + k) = pow2 j * pow2 k"
  by (simp add: pow2_eq_power_int power_int_add)

lemma pow2_mono: "j \<le> k \<Longrightarrow> pow2 j \<le> pow2 k"
  by (simp add: pow2_eq_power_int power_int_increasing)

text \<open>\<open>ilog2\<close> is the binary logarithm rounded down.\<close>

lemma ilog2_bounds:
  assumes "0 < a"
  shows "pow2 (ilog2 a) \<le> a \<and> a < pow2 (ilog2 a + 1)"
proof -
  obtain p q where pq: "quotient_of a = (p, q)" by (cases "quotient_of a")
  have q: "0 < q" using pq by (rule quotient_of_denom_pos)
  have a: "a = of_int p / of_int q" using pq by (rule quotient_of_div)
  have p: "0 < p" using assms q a by (simp add: zero_less_divide_iff)
  define d where "d = bitlen p - bitlen q"
  have bp: "(2::int) ^ nat (bitlen p - 1) \<le> p" "p < 2 ^ nat (bitlen p)"
    using bitlen_bounds [OF p] by auto
  have bq: "(2::int) ^ nat (bitlen q - 1) \<le> q" "q < 2 ^ nat (bitlen q)"
    using bitlen_bounds [OF q] by auto
  have bl: "0 \<le> bitlen p" "1 \<le> bitlen q"
    using bitlen_nonneg [of p] bq q by (auto simp: bitlen_alt_def)
  have P2: "rat_of_int p < pow2 (bitlen p)"
  proof -
    have "rat_of_int p < rat_of_int (2 ^ nat (bitlen p))"
      using bp(2) by (simp only: of_int_less_iff)
    then show ?thesis using bl by (simp add: pow2_def)
  qed
  have P1: "pow2 (bitlen p - 1) \<le> rat_of_int p"
  proof (cases "1 \<le> bitlen p")
    case True
    have "rat_of_int (2 ^ nat (bitlen p - 1)) \<le> rat_of_int p"
      using bp(1) by (simp only: of_int_le_iff)
    then show ?thesis using True by (simp add: pow2_def)
  next
    case False
    then show ?thesis using p bl by (simp add: bitlen_alt_def)
  qed
  have Q2: "rat_of_int q < pow2 (bitlen q)"
  proof -
    have "rat_of_int q < rat_of_int (2 ^ nat (bitlen q))"
      using bq(2) by (simp only: of_int_less_iff)
    then show ?thesis using bl by (simp add: pow2_def)
  qed
  have Q1: "pow2 (bitlen q - 1) \<le> rat_of_int q"
  proof -
    have "rat_of_int (2 ^ nat (bitlen q - 1)) \<le> rat_of_int q"
      using bq(1) by (simp only: of_int_le_iff)
    then show ?thesis using bl by (simp add: pow2_def)
  qed
  have aq: "a * rat_of_int q = rat_of_int p" using a q by simp
  have "a < pow2 (d + 1)"
  proof -
    have "a * pow2 (bitlen q - 1) \<le> a * rat_of_int q"
      using Q1 assms by (simp add: mult_left_mono)
    also have "\<dots> < pow2 (bitlen p)" using aq P2 by simp
    also have "\<dots> = pow2 (d + 1) * pow2 (bitlen q - 1)"
      by (simp add: pow2_add [symmetric] d_def)
    finally show ?thesis
      using pow2_pos [of "bitlen q - 1"] by (simp only: mult_less_cancel_right_pos)
  qed
  moreover have "pow2 (d - 1) \<le> a"
  proof -
    have "pow2 (d - 1) * rat_of_int q \<le> pow2 (d - 1) * pow2 (bitlen q)"
      using Q2 by (simp add: mult_left_mono less_imp_le)
    also have "\<dots> = pow2 (bitlen p - 1)" by (simp add: pow2_add [symmetric] d_def)
    also have "\<dots> \<le> a * rat_of_int q" using P1 aq by simp
    finally show ?thesis using q by (simp only: mult_le_cancel_right_pos of_int_0_less_iff)
  qed
  ultimately show ?thesis
    using pq by (auto simp: ilog2_def Let_def d_def)
qed

lemma ilog2_unique:
  assumes "0 < a" "pow2 e \<le> a" "a < pow2 (e + 1)"
  shows "ilog2 a = e"
proof -
  have b: "pow2 (ilog2 a) \<le> a" "a < pow2 (ilog2 a + 1)"
    using ilog2_bounds [OF assms(1)] by auto
  have "\<not> ilog2 a < e"
  proof
    assume "ilog2 a < e"
    then have "pow2 (ilog2 a + 1) \<le> pow2 e" by (intro pow2_mono) simp
    with b assms show False by simp
  qed
  moreover have "\<not> e < ilog2 a"
  proof
    assume "e < ilog2 a"
    then have "pow2 (e + 1) \<le> pow2 (ilog2 a)" by (intro pow2_mono) simp
    with b assms show False by simp
  qed
  ultimately show ?thesis by simp
qed

lemma roundHalfEven_unique:
  assumes "\<bar>m - of_int n\<bar> < 1/2"
  shows "roundHalfEven m = n"
proof -
  have lo: "rat_of_int n - 1/2 < m" and hi: "m < rat_of_int n + 1/2"
    using assms by linarith+
  have "rat_of_int (n - 1) \<le> m" using lo by simp
  then have f1: "n - 1 \<le> \<lfloor>m\<rfloor>" by (simp only: le_floor_iff)
  have "m < rat_of_int (n + 1)" using hi by simp
  then have f2: "\<lfloor>m\<rfloor> < n + 1" by (simp only: floor_less_iff)
  from f1 f2 have "\<lfloor>m\<rfloor> = n \<or> \<lfloor>m\<rfloor> = n - 1" by linarith
  then show ?thesis
  proof
    assume f: "\<lfloor>m\<rfloor> = n"
    then show ?thesis using hi by (simp add: roundHalfEven_def Let_def)
  next
    assume f: "\<lfloor>m\<rfloor> = n - 1"
    have "1/2 < m - rat_of_int (n - 1)" using lo by simp
    then show ?thesis using f by (simp add: roundHalfEven_def Let_def)
  qed
qed

lemma roundHalfEven_ge_floor: "\<lfloor>m\<rfloor> \<le> roundHalfEven m"
  by (simp add: roundHalfEven_def Let_def)

text \<open>
  A value strictly nearer to \<open>n * 2\<^sup>e\<^sup>-\<^sup>5\<^sup>2\<close> than half a unit in the last place rounds to it.
\<close>

lemma fl_nearest:
  assumes "0 < q" "pow2 e \<le> q" "q < pow2 (e + 1)" "- 1022 \<le> e"
    and "\<bar>q - of_int n * pow2 (e - 52)\<bar> < pow2 (e - 53)"
  shows "fl q = (if pow2 1024 \<le> of_int n * pow2 (e - 52) then PInf
                 else Fin (of_int n * pow2 (e - 52)))"
proof -
  define p where "p = pow2 (e - 52)"
  have p: "0 < p" by (simp add: p_def)
  have e: "ilog2 q = e" using assms(1-3) by (rule ilog2_unique)
  have half: "pow2 (e - 53) = p / 2"
    using pow2_add [of "e - 53" 1] by (simp add: pow2_def p_def)
  have "q / p - of_int n = (q - of_int n * p) / p"
    using p by (simp add: diff_divide_distrib)
  then have "\<bar>q / p - of_int n\<bar> = \<bar>q - of_int n * p\<bar> / p"
    using p by (simp add: abs_divide)
  also have "\<dots> < 1/2"
    using assms(5) half p by (simp add: pos_divide_less_eq p_def)
  finally have "roundHalfEven (q / p) = n" by (rule roundHalfEven_unique)
  moreover have "max (ilog2 q) (- 1022) - 52 = e - 52" using e assms(4) by simp
  ultimately show ?thesis using assms(1) by (simp add: fl_def Let_def p_def)
qed

lemma fl_overflow:
  assumes "pow2 1024 \<le> q"
  shows "fl q = PInf"
proof -
  have q: "0 < q" using assms pow2_pos [of 1024] by linarith
  define e where "e = ilog2 q"
  have b: "pow2 e \<le> q" "q < pow2 (e + 1)" using ilog2_bounds [OF q] by (auto simp: e_def)
  have e: "1024 \<le> e"
  proof (rule ccontr)
    assume "\<not> 1024 \<le> e"
    then have "pow2 (e + 1) \<le> pow2 1024" by (intro pow2_mono) simp
    with b assms show False by linarith
  qed
  define p where "p = pow2 (e - 52)"
  have p: "0 < p" by (simp add: p_def)
  have pe: "pow2 52 * p = pow2 e" by (simp add: p_def pow2_add [symmetric])
  then have "pow2 52 \<le> q / p" using b(1) p by (simp add: pos_le_divide_eq)
  moreover have p52: "pow2 52 = rat_of_int (2 ^ 52)" by (simp add: pow2_def)
  ultimately have "rat_of_int (2 ^ 52) \<le> q / p" by simp
  then have "2 ^ 52 \<le> \<lfloor>q / p\<rfloor>" by (simp only: le_floor_iff)
  then have "2 ^ 52 \<le> roundHalfEven (q / p)"
    using roundHalfEven_ge_floor [of "q / p"] by linarith
  then have "rat_of_int (2 ^ 52) \<le> rat_of_int (roundHalfEven (q / p))"
    by (simp only: of_int_le_iff)
  then have "pow2 52 * p \<le> rat_of_int (roundHalfEven (q / p)) * p"
    using p p52 by (simp add: mult_right_mono)
  then have "pow2 e \<le> rat_of_int (roundHalfEven (q / p)) * p" using pe by simp
  moreover have "pow2 1024 \<le> pow2 e" using e by (rule pow2_mono)
  ultimately have "pow2 1024 \<le> rat_of_int (roundHalfEven (q / p)) * p" by linarith
  moreover have "max (ilog2 q) (- 1022) - 52 = e - 52" using e by (simp add: e_def)
  ultimately show ?thesis using q by (simp add: fl_def Let_def p_def)
qed

lemma fl_5: "fl 5 = Fin 5"
  using fl_nearest [of 5 2 "5 * 2 ^ 50"] by (simp add: pow2_def)

lemma fl_1: "fl 1 = Fin 1"
  using fl_nearest [of 1 0 "2 ^ 52"] by (simp add: pow2_def)

lemma fl_minus: "fl (- q) = js_neg (fl q)"
  by (simp add: fl_def Let_def)

lemma fl_199_5: "fl (399 / 2) = Fin (399 / 2)"
  using fl_nearest [of "399 / 2" 7 "399 * 2 ^ 44"] by (simp add: pow2_def)

lemma fl_19950: "fl 19950 = Fin 19950"
  using fl_nearest [of 19950 14 "19950 * 2 ^ 38"] by (simp add: pow2_def)

lemmas parse_defs = parseAmount_def Number_def trim_def removeWhiteSpace_def isWhiteSpace_def
  nonDecimalIntegerLiteral_def strDecimalLiteral_def strUnsignedDecimalLiteral_def
  exponentPart_def signedInteger_def isDecimalDigit_def digitValue_def isDigitOf_def
  digitsMV_def pow10_def ascii_def Let_def

lemma parseAmount_abc: "parseAmount (ascii ''abc'') = NaN"
  by (simp add: parse_defs)

lemma parseAmount_0: "parseAmount (ascii ''0'') = Fin 0"
  by (simp add: parse_defs fl_def)

lemma parseAmount_minus5: "parseAmount (ascii ''-5'') = Fin (- 5)"
  by (simp add: parse_defs fl_5)

lemma parseAmount_199_5: "parseAmount (ascii ''199,5'') = Fin (399 / 2)"
  by (simp add: parse_defs fl_199_5)

lemma trim_empty_iff: "trim s = [] \<longleftrightarrow> (\<forall>c\<in>set s. isWhiteSpace c)"
proof -
  have "trim s = [] \<longleftrightarrow> (\<forall>c\<in>set (dropWhile isWhiteSpace s). isWhiteSpace c)"
    by (simp add: trim_def dropWhile_eq_Nil_conv)
  also have "\<dots> \<longleftrightarrow> dropWhile isWhiteSpace s = []"
  proof (cases "dropWhile isWhiteSpace s")
    case Nil
    show ?thesis unfolding Nil by simp
  next
    case (Cons c cs)
    have "\<not> isWhiteSpace (hd (dropWhile isWhiteSpace s))"
      by (rule hd_dropWhile) (simp add: Cons)
    then have "\<not> isWhiteSpace c" unfolding Cons by simp
    then show ?thesis unfolding Cons by auto
  qed
  also have "\<dots> \<longleftrightarrow> (\<forall>c\<in>set s. isWhiteSpace c)"
    by (rule dropWhile_eq_Nil_conv)
  finally show ?thesis .
qed

lemma positive_not_rejected:
  "js_lt (Fin 0) p \<Longrightarrow> \<not> Number_isNaN p \<and> \<not> js_le p (Fin 0)"
  by (cases p) auto

section \<open>Updating a record\<close>

text \<open>
  C9. \<open>saveEdit\<close> replaces by id with the whole supplied record: the collection keeps its
  length, every position holding a record of the supplied id now holds the supplied
  record, every other position keeps its record, and when no record has that id the
  collection is unchanged. It also leaves edit mode.
\<close>

theorem saveEdit_replaces_by_id:
  "length (expenses (saveEdit u st)) = length (expenses st) \<and>
   (\<forall>i < length (expenses st).
      expenses (saveEdit u st) ! i = (if id' (expenses st ! i) = id' u then u else expenses st ! i)) \<and>
   ((\<forall>e\<in>set (expenses st). id' e \<noteq> id' u) \<longrightarrow> expenses (saveEdit u st) = expenses st) \<and>
   editingId (saveEdit u st) = None"
proof -
  have "(\<forall>e\<in>set es. id' e \<noteq> id' u) \<longrightarrow> map (\<lambda>e. if id' e = id' u then u else e) es = es" for es
    by (induction es) auto
  then show ?thesis by (simp add: saveEdit_def)
qed

theorem saveEdit_replaces_by_id_witness:
  "expenses (saveEdit (coffee\<lparr>description := ascii ''Latte'', amount := Fin 250\<rparr>) twoRows) ! 1
     = coffee\<lparr>description := ascii ''Latte'', amount := Fin 250\<rparr> \<and>
   expenses (saveEdit (coffee\<lparr>description := ascii ''Latte'', amount := Fin 250\<rparr>) twoRows) ! 0
     = taxi \<and>
   expenses (saveEdit (coffee\<lparr>id' := ascii ''id-9''\<rparr>) twoRows) = expenses twoRows"
  using saveEdit_replaces_by_id [of "coffee\<lparr>description := ascii ''Latte'', amount := Fin 250\<rparr>" twoRows]
    saveEdit_replaces_by_id [of "coffee\<lparr>id' := ascii ''id-9''\<rparr>" twoRows]
  by (simp add: twoRows_def initialHome_def coffee_def taxi_def ascii_def)

section \<open>Editing a row\<close>

text \<open>
  C8. The edit path validates nothing. An amount input that does not parse (NaN) puts 0
  in the working copy, and committing the copy stores 0 at every position of the
  collection holding the record's id; an emptied description is stored empty the same way.
\<close>

theorem edit_commit_unvalidated:
  "(Number_isNaN (parseAmount s) \<longrightarrow> amount (onChangeAmount local s) = Fin 0) \<and>
   (\<forall>i < length (expenses st).
      id' (expenses st ! i) = id' local \<longrightarrow>
        (Number_isNaN (parseAmount s) \<longrightarrow>
           expenses (saveEdit (onChangeAmount local s) st) ! i = local\<lparr>amount := Fin 0\<rparr>) \<and>
        expenses (saveEdit (onChangeDescription local []) st) ! i = local\<lparr>description := []\<rparr>)"
proof -
  have "Number_isNaN n \<Longrightarrow> js_or n (Fin 0) = Fin 0" for n
    by (cases n) (simp_all add: js_or_def)
  then show ?thesis
    by (simp add: onChangeAmount_def onChangeDescription_def saveEdit_def)
qed

theorem edit_commit_unvalidated_witness:
  "Number_isNaN (parseAmount (ascii ''abc'')) \<and>
   amount (onChangeAmount coffee (ascii ''abc'')) = Fin 0 \<and>
   expenses (saveEdit (onChangeAmount coffee (ascii ''abc'')) twoRows) ! 1
     = coffee\<lparr>amount := Fin 0\<rparr> \<and>
   expenses (saveEdit (onChangeDescription coffee []) twoRows) ! 1
     = coffee\<lparr>description := []\<rparr>"
proof -
  have nan: "Number_isNaN (parseAmount (ascii ''abc''))" by (simp add: parseAmount_abc)
  have i: "(1::nat) < length (expenses twoRows)" "id' (expenses twoRows ! 1) = id' coffee"
    by (simp_all add: twoRows_def initialHome_def)
  show ?thesis
    using edit_commit_unvalidated [of "ascii ''abc''" coffee twoRows] nan i by blast
qed

text \<open>
  C10. The coercion \<open>|| 0\<close> of the amount input only replaces NaN and zero. An input
  that parses to a number below zero (minus infinity included) goes into the working
  copy as it is, and the commit stores it, although \<open>handleAdd\<close> rejects the same input.
\<close>

theorem edit_accepts_negative_amount:
  assumes "js_lt (parseAmount s) (Fin 0)"
  shows "amount (onChangeAmount local s) = parseAmount s \<and>
         (\<forall>i < length (expenses st).
            id' (expenses st ! i) = id' local \<longrightarrow>
              amount (expenses (saveEdit (onChangeAmount local s) st) ! i) = parseAmount s) \<and>
         handleAdd uuid today (st\<lparr>form_amount := s\<rparr>) = st\<lparr>form_amount := s\<rparr>"
proof -
  have t: "js_or (parseAmount s) (Fin 0) = parseAmount s"
    using assms by (cases "parseAmount s") (simp_all add: js_or_def)
  have r: "js_le (parseAmount s) (Fin 0)"
    using assms by (cases "parseAmount s") simp_all
  show ?thesis
    using t r by (simp add: onChangeAmount_def saveEdit_def handleAdd_def Let_def)
qed

theorem edit_accepts_negative_amount_witness:
  "js_lt (parseAmount (ascii ''-5'')) (Fin 0) \<and>
   amount (onChangeAmount coffee (ascii ''-5'')) = Fin (- 5) \<and>
   amount (expenses (saveEdit (onChangeAmount coffee (ascii ''-5'')) twoRows) ! 1) = Fin (- 5) \<and>
   handleAdd (ascii ''id-3'') (ascii ''2024-02-02'') (exampleForm (ascii ''-5''))
     = exampleForm (ascii ''-5'')"
proof -
  have neg: "js_lt (parseAmount (ascii ''-5'')) (Fin 0)" by (simp add: parseAmount_minus5)
  have i: "(1::nat) < length (expenses twoRows)" "id' (expenses twoRows ! 1) = id' coffee"
    by (simp_all add: twoRows_def initialHome_def)
  have f: "(exampleForm (ascii ''-5''))\<lparr>form_amount := ascii ''-5''\<rparr> = exampleForm (ascii ''-5'')"
    by (simp add: exampleForm_def fillForm_def)
  show ?thesis
    using edit_accepts_negative_amount [OF neg, of coffee twoRows "ascii ''id-3''"
        "ascii ''2024-02-02''"]
      edit_accepts_negative_amount [OF neg, of coffee "exampleForm (ascii ''-5'')" "ascii ''id-3''"
        "ascii ''2024-02-02''"]
      neg i f
    by (simp add: parseAmount_minus5)
qed

section \<open>Adding a record\<close>

text \<open>
  C2. \<open>handleAdd\<close> returns without any state change when the amount input does not parse
  (NaN) or parses to a value \<open>\<le> 0\<close>, when the description is empty or all white space, or
  when the date is empty: the collection and the form are as before.
\<close>

theorem handleAdd_rejects:
  assumes "Number_isNaN (parseAmount (form_amount st)) \<or>
           js_le (parseAmount (form_amount st)) (Fin 0) \<or>
           (\<forall>c\<in>set (form_description st). isWhiteSpace c) \<or>
           form_date st = []"
  shows "handleAdd uuid today st = st"
  using assms by (auto simp: handleAdd_def Let_def trim_empty_iff)

theorem handleAdd_rejects_witness:
  "handleAdd (ascii ''id-3'') (ascii ''2024-02-02'') (exampleForm (ascii ''abc''))
     = exampleForm (ascii ''abc'') \<and>
   handleAdd (ascii ''id-3'') (ascii ''2024-02-02'') (exampleForm (ascii ''0''))
     = exampleForm (ascii ''0'') \<and>
   handleAdd (ascii ''id-3'') (ascii ''2024-02-02'') (exampleForm (ascii ''-5''))
     = exampleForm (ascii ''-5'') \<and>
   handleAdd (ascii ''id-3'') (ascii ''2024-02-02'')
       ((exampleForm (ascii ''199,5''))\<lparr>form_description := ascii ''  ''\<rparr>)
     = (exampleForm (ascii ''199,5''))\<lparr>form_description := ascii ''  ''\<rparr> \<and>
   handleAdd (ascii ''id-3'') (ascii ''2024-02-02'')
       ((exampleForm (ascii ''199,5''))\<lparr>form_date := []\<rparr>)
     = (exampleForm (ascii ''199,5''))\<lparr>form_date := []\<rparr>"
proof -
  have a: "Number_isNaN (parseAmount (form_amount (exampleForm (ascii ''abc''))))"
    by (simp add: exampleForm_def fillForm_def parseAmount_abc)
  have b: "js_le (parseAmount (form_amount (exampleForm (ascii ''0'')))) (Fin 0)"
    by (simp add: exampleForm_def fillForm_def parseAmount_0)
  have c: "js_le (parseAmount (form_amount (exampleForm (ascii ''-5'')))) (Fin 0)"
    by (simp add: exampleForm_def fillForm_def parseAmount_minus5)
  have d: "\<forall>c\<in>set (form_description ((exampleForm (ascii ''199,5''))\<lparr>form_description := ascii ''  ''\<rparr>)).
             isWhiteSpace c"
    by (simp add: ascii_def isWhiteSpace_def)
  have e: "form_date ((exampleForm (ascii ''199,5''))\<lparr>form_date := []\<rparr>) = []"
    by simp
  show ?thesis
    using handleAdd_rejects [of "exampleForm (ascii ''abc'')"] a
      handleAdd_rejects [of "exampleForm (ascii ''0'')"] b
      handleAdd_rejects [of "exampleForm (ascii ''-5'')"] c
      handleAdd_rejects [of "(exampleForm (ascii ''199,5''))\<lparr>form_description := ascii ''  ''\<rparr>"] d
      handleAdd_rejects [of "(exampleForm (ascii ''199,5''))\<lparr>form_date := []\<rparr>"] e
    by blast
qed

lemma pow2_nonneg [simp]: "0 \<le> pow2 k"
  using pow2_pos [of k] by linarith

lemma roundHalfEven_error: "\<bar>rat_of_int (roundHalfEven m) - m\<bar> \<le> 1/2"
proof -
  have f: "rat_of_int \<lfloor>m\<rfloor> \<le> m" "m < rat_of_int \<lfloor>m\<rfloor> + 1" by linarith+
  show ?thesis
  proof (cases "m - rat_of_int \<lfloor>m\<rfloor> < 1/2")
    case True
    then have "roundHalfEven m = \<lfloor>m\<rfloor>" by (simp add: roundHalfEven_def Let_def)
    then show ?thesis using f True by (simp add: abs_le_iff)
  next
    case False
    then have "roundHalfEven m = \<lfloor>m\<rfloor> \<and> m - rat_of_int \<lfloor>m\<rfloor> = 1/2
       \<or> roundHalfEven m = \<lfloor>m\<rfloor> + 1"
      by (auto simp: roundHalfEven_def Let_def)
    then show ?thesis using f False by (auto simp: abs_le_iff)
  qed
qed

lemma pow2_less_half: "pow2 k < 1/2 \<Longrightarrow> k < - 1"
proof (rule ccontr)
  assume a: "pow2 k < 1/2" and "\<not> k < - 1"
  then have "pow2 (- 1) \<le> pow2 k" by (intro pow2_mono) simp
  then show False using a by (simp add: pow2_def)
qed

text \<open>
  Away from overflow, \<open>fl\<close> errs by at most half a unit in the last place; so a product
  farther than that from a midpoint rounds, by \<open>Math.round\<close>, to the integer its exact value
  rounds to.
\<close>

lemma fl_small:
  assumes "0 < x" "halfUlp x < 1/2"
  shows "\<exists>r. fl x = Fin r \<and> \<bar>r - x\<bar> \<le> halfUlp x"
proof -
  define u where "u = max (ilog2 x) (- 1022) - 52"
  define n where "n = roundHalfEven (x / pow2 u)"
  define r where "r = rat_of_int n * pow2 u"
  have h: "halfUlp x = pow2 (u - 1)" by (simp add: halfUlp_def u_def)
  have h2: "pow2 (u - 1) = pow2 u / 2" using pow2_add [of "u - 1" 1] by (simp add: pow2_def)
  have u: "u < 0" using pow2_less_half [of "u - 1"] assms(2) h by simp
  then have e: "ilog2 x + 1 \<le> 52" by (simp add: u_def)
  have "x < pow2 (ilog2 x + 1)" using ilog2_bounds [OF assms(1)] by simp
  also have "\<dots> \<le> pow2 52" using e by (rule pow2_mono)
  finally have x52: "x < pow2 52" .
  have pu: "0 < pow2 u" by simp
  have "pow2 u \<noteq> 0" using pow2_pos [of u] by linarith
  then have "x / pow2 u * pow2 u = x" by simp
  then have "r - x = (rat_of_int n - x / pow2 u) * pow2 u"
    by (simp only: r_def left_diff_distrib)
  moreover have "\<bar>pow2 u\<bar> = pow2 u" using pow2_pos [of u] by linarith
  ultimately have "\<bar>r - x\<bar> = \<bar>rat_of_int n - x / pow2 u\<bar> * pow2 u"
    by (simp add: abs_mult)
  also have "\<dots> \<le> 1/2 * pow2 u"
    using roundHalfEven_error [of "x / pow2 u"] pu
    by (intro mult_right_mono) (simp_all add: n_def)
  finally have err: "\<bar>r - x\<bar> \<le> halfUlp x" using h h2 by simp
  then have "r < x + 1/2" using assms(2) by linarith
  then have "r < pow2 52 + 1/2" using x52 by linarith
  moreover have "pow2 52 + 1/2 < pow2 1024" by (simp add: pow2_def)
  ultimately have "\<not> pow2 1024 \<le> r" by linarith
  then have "fl x = Fin r"
    using assms(1) by (simp add: fl_def Let_def r_def n_def u_def)
  then show ?thesis using err by blast
qed

lemma midpointDistance_le_half: "midpointDistance x \<le> 1/2"
proof -
  have "rat_of_int \<lfloor>x\<rfloor> \<le> x" "x < rat_of_int \<lfloor>x\<rfloor> + 1" by linarith+
  then show ?thesis unfolding midpointDistance_def by linarith
qed

lemma same_rounding:
  assumes "0 < x" "halfUlp x < midpointDistance x"
  shows "\<exists>p. fl x = Fin p \<and> \<lfloor>p + 1/2\<rfloor> = \<lfloor>x + 1/2\<rfloor>"
proof -
  have "halfUlp x < 1/2" using assms(2) midpointDistance_le_half [of x] by linarith
  then obtain p where p: "fl x = Fin p" "\<bar>p - x\<bar> \<le> halfUlp x"
    using fl_small [OF assms(1)] by blast
  define k where "k = \<lfloor>x\<rfloor>"
  have k: "rat_of_int k \<le> x" "x < rat_of_int k + 1" unfolding k_def by linarith+
  have d: "\<bar>p - x\<bar> < \<bar>x - (rat_of_int k + 1/2)\<bar>"
    using p(2) assms(2) by (simp add: midpointDistance_def k_def)
  have "\<lfloor>p + 1/2\<rfloor> = \<lfloor>x + 1/2\<rfloor>"
  proof (cases "x < rat_of_int k + 1/2")
    case True
    have "\<lfloor>x + 1/2\<rfloor> = k" using k True by (intro floor_unique) simp_all
    moreover have "\<lfloor>p + 1/2\<rfloor> = k"
    proof (rule floor_unique)
      show "rat_of_int k \<le> p + 1/2" using d True k by linarith
      show "p + 1/2 < rat_of_int k + 1" using d True k by linarith
    qed
    ultimately show ?thesis by simp
  next
    case False
    have "\<lfloor>x + 1/2\<rfloor> = k + 1" using k False by (intro floor_unique) simp_all
    moreover have "\<lfloor>p + 1/2\<rfloor> = k + 1"
    proof (rule floor_unique)
      show "rat_of_int (k + 1) \<le> p + 1/2" using d False k by simp
      show "p + 1/2 < rat_of_int (k + 1) + 1" using d False k by simp
    qed
    ultimately show ?thesis by simp
  qed
  then show ?thesis using p(1) by blast
qed

lemma roundAmount_same_integer:
  assumes "fl (q * 100) = Fin p" "\<lfloor>p + 1/2\<rfloor> = \<lfloor>q * 100 + 1/2\<rfloor>"
  shows "roundAmount (Fin q) = fl (roundTo2Decimals q)"
  using assms by (simp add: roundAmount_def roundTo2Decimals_def)

lemma roundAmount_off_midpoint:
  assumes "0 < q" "halfUlp (q * 100) < midpointDistance (q * 100)"
  shows "roundAmount (Fin q) = fl (roundTo2Decimals q)"
proof -
  have "0 < q * 100" using assms(1) by simp
  from same_rounding [OF this assms(2)]
  obtain p where "fl (q * 100) = Fin p" "\<lfloor>p + 1/2\<rfloor> = \<lfloor>q * 100 + 1/2\<rfloor>" by blast
  then show ?thesis by (rule roundAmount_same_integer)
qed

lemma fl_12_34: "fl (617 / 50) = Fin amount1234"
  using fl_nearest [of "617 / 50" 3 6946802425218990] by (simp add: pow2_def amount1234_def)

lemma parseAmount_12_34: "parseAmount (ascii ''12,34'') = Fin amount1234"
  by (simp add: parse_defs fl_12_34)

lemma halfUlp_1234: "halfUlp (amount1234 * 100) < midpointDistance (amount1234 * 100)"
proof -
  have "ilog2 (amount1234 * 100) = 10"
    by (rule ilog2_unique) (simp_all add: pow2_def amount1234_def)
  then show ?thesis
    by (simp add: halfUlp_def midpointDistance_def pow2_def) (simp add: amount1234_def)
qed

lemma roundTo2Decimals_1234: "roundTo2Decimals amount1234 = 617 / 50"
  by (simp add: roundTo2Decimals_def amount1234_def)

lemma fl_0_595: "fl (119 / 200) = Fin amount595"
  using fl_nearest [of "119 / 200" "- 1" 5359283556570890] by (simp add: pow2_def amount595_def)

lemma parseAmount_0_595: "parseAmount (ascii ''0.595'') = Fin amount595"
  by (simp add: parse_defs fl_0_595)

lemma fl_product_595: "fl (amount595 * 100) = Fin (119 / 2)"
  using fl_nearest [of "amount595 * 100" 5 8373880557142016] by (simp add: pow2_def amount595_def)

lemma fl_0_6: "fl (3 / 5) = Fin (5404319552844595 / 9007199254740992)"
  using fl_nearest [of "3 / 5" "- 1" 5404319552844595] by (simp add: pow2_def)

lemma fl_0_59: "fl (59 / 100) = Fin (5314247560297185 / 9007199254740992)"
  using fl_nearest [of "59 / 100" "- 1" 5314247560297185] by (simp add: pow2_def)

lemma roundAmount_595: "roundAmount (Fin amount595) = Fin (5404319552844595 / 9007199254740992)"
  by (simp add: roundAmount_def fl_product_595 fl_0_6)

lemma roundTo2Decimals_595: "roundTo2Decimals amount595 = 59 / 100"
  by (simp add: roundTo2Decimals_def amount595_def)

lemma handleAdd_accepted_state:
  assumes "\<not> (\<forall>c\<in>set (form_description st). isWhiteSpace c)"
    and "form_date st \<noteq> []"
    and "js_lt (Fin 0) (parseAmount (form_amount st))"
  shows "handleAdd uuid today st =
           st\<lparr>expenses := \<lparr>id' = uuid, description = trim (form_description st),
                             category = form_category st, date = form_date st,
                             amount = roundAmount (parseAmount (form_amount st))\<rparr> # expenses st,
              form_description := [], form_category := Eda, form_date := today,
              form_amount := []\<rparr>"
proof -
  have ok: "\<not> Number_isNaN (parseAmount (form_amount st))"
    "\<not> js_le (parseAmount (form_amount st)) (Fin 0)"
    using positive_not_rejected [OF assms(3)] by simp_all
  have tr: "trim (form_description st) \<noteq> []"
    using assms(1) by (simp add: trim_empty_iff)
  show ?thesis
    using ok tr assms(2) by (simp add: handleAdd_def Let_def resetForm_def)
qed

text \<open>
  C1. When the description is not empty after trimming, the date is not empty and the
  amount input parses to a number above zero, \<open>handleAdd\<close> puts one new record in front
  of the collection, with the given id, the trimmed description and the category and date
  of the form, and resets the four form fields. The amount of the new record is the
  parsed value rounded to 2 decimal places (the Number nearest to that) whenever the
  binary64 product \<open>parsed * 100\<close> rounds to the integer that the exact product rounds to;
  and it does so whenever the exact product lies farther from the midpoint of two integers
  than half a unit in the last place.
\<close>

theorem handleAdd_accepts:
  assumes "\<not> (\<forall>c\<in>set (form_description st). isWhiteSpace c)"
    and "form_date st \<noteq> []"
    and "js_lt (Fin 0) (parseAmount (form_amount st))"
  shows "(\<exists>a. handleAdd uuid today st =
           st\<lparr>expenses := \<lparr>id' = uuid, description = trim (form_description st),
                             category = form_category st, date = form_date st,
                             amount = a\<rparr> # expenses st,
              form_description := [], form_category := Eda, form_date := today,
              form_amount := []\<rparr>) \<and>
         length (expenses (handleAdd uuid today st)) = length (expenses st) + 1 \<and>
         (\<forall>q p. parseAmount (form_amount st) = Fin q \<and> fl (q * 100) = Fin p \<and>
                \<lfloor>p + 1/2\<rfloor> = \<lfloor>q * 100 + 1/2\<rfloor> \<longrightarrow>
            amount (hd (expenses (handleAdd uuid today st))) = fl (roundTo2Decimals q)) \<and>
         (\<forall>q. parseAmount (form_amount st) = Fin q \<and>
              halfUlp (q * 100) < midpointDistance (q * 100) \<longrightarrow>
            amount (hd (expenses (handleAdd uuid today st))) = fl (roundTo2Decimals q))"
proof -
  note eq = handleAdd_accepted_state [OF assms, of uuid today]
  have a: "amount (hd (expenses (handleAdd uuid today st))) = roundAmount (parseAmount (form_amount st))"
    by (simp add: eq)
  have pos: "0 < q" if "parseAmount (form_amount st) = Fin q" for q
    using assms(3) that by simp
  have t: "amount (hd (expenses (handleAdd uuid today st))) = fl (roundTo2Decimals q)"
    if "parseAmount (form_amount st) = Fin q" "fl (q * 100) = Fin p"
      "\<lfloor>p + 1/2\<rfloor> = \<lfloor>q * 100 + 1/2\<rfloor>" for q p
    using roundAmount_same_integer [OF that(2,3)] that(1) a by simp
  have m: "amount (hd (expenses (handleAdd uuid today st))) = fl (roundTo2Decimals q)"
    if "parseAmount (form_amount st) = Fin q" "halfUlp (q * 100) < midpointDistance (q * 100)" for q
    using roundAmount_off_midpoint [OF pos [OF that(1)] that(2)] that(1) a by simp
  have e: "\<exists>a. handleAdd uuid today st =
           st\<lparr>expenses := \<lparr>id' = uuid, description = trim (form_description st),
                             category = form_category st, date = form_date st,
                             amount = a\<rparr> # expenses st,
              form_description := [], form_category := Eda, form_date := today,
              form_amount := []\<rparr>"
    using eq by (rule exI)
  have l: "length (expenses (handleAdd uuid today st)) = length (expenses st) + 1"
    by (simp add: eq)
  show ?thesis using e l t m by blast
qed

theorem handleAdd_accepts_witness:
  "handleAdd (ascii ''id-3'') (ascii ''2024-02-02'') (exampleForm (ascii ''12,34'')) =
     (initialHome (ascii ''2024-02-02''))
       \<lparr>expenses := [\<lparr>id' = ascii ''id-3'', description = kofe, category = Eda,
                       date = ascii ''2024-01-05'', amount = Fin amount1234\<rparr>]\<rparr> \<and>
   fl (roundTo2Decimals amount1234) = Fin amount1234"
proof -
  let ?st = "exampleForm (ascii ''12,34'')"
  have a: "\<not> (\<forall>c\<in>set (form_description ?st). isWhiteSpace c)"
    by (simp add: exampleForm_def fillForm_def kofe_def isWhiteSpace_def)
  have b: "form_date ?st \<noteq> []"
    by (simp add: exampleForm_def fillForm_def ascii_def)
  have p: "parseAmount (form_amount ?st) = Fin amount1234"
    by (simp add: exampleForm_def fillForm_def parseAmount_12_34)
  have c: "js_lt (Fin 0) (parseAmount (form_amount ?st))"
    by (simp add: p amount1234_def)
  have r: "fl (roundTo2Decimals amount1234) = Fin amount1234"
    by (simp only: roundTo2Decimals_1234 fl_12_34)
  have t: "trim kofe = kofe"
    by (simp add: trim_def kofe_def isWhiteSpace_def)
  note th = handleAdd_accepts [OF a b c, of "ascii ''id-3''" "ascii ''2024-02-02''"]
  have am: "amount (hd (expenses (handleAdd (ascii ''id-3'') (ascii ''2024-02-02'') ?st)))
      = Fin amount1234"
    using th p halfUlp_1234 r by simp
  obtain x where x: "handleAdd (ascii ''id-3'') (ascii ''2024-02-02'') ?st =
      ?st\<lparr>expenses := \<lparr>id' = ascii ''id-3'', description = trim (form_description ?st),
                          category = form_category ?st, date = form_date ?st,
                          amount = x\<rparr> # expenses ?st,
           form_description := [], form_category := Eda, form_date := ascii ''2024-02-02'',
           form_amount := []\<rparr>"
    using th by blast
  have "x = Fin amount1234" using am unfolding x by simp
  then show ?thesis
    unfolding x using r by (simp add: exampleForm_def fillForm_def initialHome_def t)
qed

text \<open>
  The claim fails for a parsed value just below a midpoint and for a huge one. The input
  \<open>0.595\<close> parses to a Number a little below 0.595, which rounded to 2 decimal places is
  0.59; its product with 100 rounds up to 59.5 and the record stored has the amount 0.6.
  The input \<open>1e308\<close> parses to a finite Number, which rounded to 2 decimal places is
  itself; its product with 100 overflows and the record stored has the amount
  \<open>Infinity\<close>.
\<close>

lemma fl_1e308: "fl (10 ^ 308) = Fin hugeAmount"
  using fl_nearest [of "10 ^ 308" 1023 5010420900022432] by (simp add: pow2_def hugeAmount_def)

lemma parseAmount_1e308: "parseAmount (ascii ''1e308'') = Fin hugeAmount"
proof -
  have "parseAmount (ascii ''1e308'') = fl (10 ^ 308)" by (simp add: parse_defs)
  then show ?thesis by (simp only: fl_1e308)
qed

lemma fl_hugeAmount: "fl hugeAmount = Fin hugeAmount"
  using fl_nearest [of hugeAmount 1023 5010420900022432] by (simp add: pow2_def hugeAmount_def)

lemma roundTo2Decimals_of_int: "roundTo2Decimals (of_int k) = of_int k"
proof -
  have "\<lfloor>rat_of_int k * 100 + 1/2\<rfloor> = k * 100"
  proof -
    have "rat_of_int (k * 100) \<le> rat_of_int k * 100 + 1/2" by simp
    moreover have "rat_of_int k * 100 + 1/2 < rat_of_int (k * 100) + 1" by simp
    ultimately show ?thesis by (rule floor_unique)
  qed
  then show ?thesis by (simp add: roundTo2Decimals_def)
qed

lemma roundAmount_hugeAmount: "roundAmount (Fin hugeAmount) = PInf"
proof -
  have "fl (hugeAmount * 100) = PInf"
    by (rule fl_overflow) (simp add: pow2_def hugeAmount_def)
  then show ?thesis by (simp add: roundAmount_def)
qed

lemma handleAdd_0_595:
  "amount (hd (expenses (handleAdd (ascii ''id-3'') (ascii ''2024-02-02'')
     (exampleForm (ascii ''0.595''))))) = Fin (5404319552844595 / 9007199254740992)"
proof -
  let ?st = "exampleForm (ascii ''0.595'')"
  have a: "\<not> (\<forall>c\<in>set (form_description ?st). isWhiteSpace c)"
    by (simp add: exampleForm_def fillForm_def kofe_def isWhiteSpace_def)
  have b: "form_date ?st \<noteq> []"
    by (simp add: exampleForm_def fillForm_def ascii_def)
  have p: "parseAmount (form_amount ?st) = Fin amount595"
    by (simp add: exampleForm_def fillForm_def parseAmount_0_595)
  have c: "js_lt (Fin 0) (parseAmount (form_amount ?st))"
    by (simp add: p amount595_def)
  show ?thesis
    by (simp add: handleAdd_accepted_state [OF a b c] p roundAmount_595)
qed

lemma handleAdd_1e308:
  "amount (hd (expenses (handleAdd (ascii ''id-3'') (ascii ''2024-02-02'')
     (exampleForm (ascii ''1e308''))))) = PInf"
proof -
  let ?st = "exampleForm (ascii ''1e308'')"
  have a: "\<not> (\<forall>c\<in>set (form_description ?st). isWhiteSpace c)"
    by (simp add: exampleForm_def fillForm_def kofe_def isWhiteSpace_def)
  have b: "form_date ?st \<noteq> []"
    by (simp add: exampleForm_def fillForm_def ascii_def)
  have p: "parseAmount (form_amount ?st) = Fin hugeAmount"
    by (simp add: exampleForm_def fillForm_def parseAmount_1e308)
  have "0 < hugeAmount" by (simp add: hugeAmount_def)
  then have c: "js_lt (Fin 0) (parseAmount (form_amount ?st))"
    by (simp add: p)
  show ?thesis
    by (simp add: handleAdd_accepted_state [OF a b c] p roundAmount_hugeAmount)
qed

theorem handleAdd_rounding_counterexample:
  "parseAmount (ascii ''0.595'') = Fin amount595 \<and> 0 < amount595 \<and>
   fl (roundTo2Decimals amount595) = Fin (5314247560297185 / 9007199254740992) \<and>
   amount (hd (expenses (handleAdd (ascii ''id-3'') (ascii ''2024-02-02'')
     (exampleForm (ascii ''0.595''))))) = Fin (5404319552844595 / 9007199254740992) \<and>
   amount (hd (expenses (handleAdd (ascii ''id-3'') (ascii ''2024-02-02'')
     (exampleForm (ascii ''0.595''))))) \<noteq> fl (roundTo2Decimals amount595) \<and>
   parseAmount (ascii ''1e308'') = Fin hugeAmount \<and> 0 < hugeAmount \<and>
   fl (roundTo2Decimals hugeAmount) = Fin hugeAmount \<and>
   amount (hd (expenses (handleAdd (ascii ''id-3'') (ascii ''2024-02-02'')
     (exampleForm (ascii ''1e308''))))) = PInf \<and>
   amount (hd (expenses (handleAdd (ascii ''id-3'') (ascii ''2024-02-02'')
     (exampleForm (ascii ''1e308''))))) \<noteq> fl (roundTo2Decimals hugeAmount)"
proof -
  have p5: "0 < amount595" by (simp add: amount595_def)
  have r5: "fl (roundTo2Decimals amount595) = Fin (5314247560297185 / 9007199254740992)"
    by (simp only: roundTo2Decimals_595 fl_0_59)
  have ph: "0 < hugeAmount" by (simp add: hugeAmount_def)
  have "hugeAmount = rat_of_int (5010420900022432 * 2 ^ 971)" by (simp add: hugeAmount_def)
  then have "roundTo2Decimals hugeAmount = hugeAmount"
    using roundTo2Decimals_of_int [of "5010420900022432 * 2 ^ 971"] by (simp only:)
  then have rh: "fl (roundTo2Decimals hugeAmount) = Fin hugeAmount"
    by (simp only: fl_hugeAmount)
  show ?thesis
    using p5 ph by (simp add: parseAmount_0_595 parseAmount_1e308 r5 rh handleAdd_0_595 handleAdd_1e308)
qed

lemma roundAmount_199_5: "roundAmount (Fin (399 / 2)) = Fin (399 / 2)"
  by (simp add: roundAmount_def fl_19950 fl_199_5)

lemmas example_defs = coffee_def taxi_def bus_def kofe_def ascii_def

section \<open>The projection\<close>


lemma set_insertSorted [simp]: "set (insertSorted cmp x ys) = insert x (set ys)"
  by (induction ys) auto

lemma mset_insertSorted [simp]: "mset (insertSorted cmp x ys) = add_mset x (mset ys)"
  by (induction ys) auto

lemma mset_Array_sort [simp]: "mset (Array_sort cmp xs) = mset xs"
  by (induction xs) auto

lemma set_Array_sort [simp]: "set (Array_sort cmp xs) = set xs"
  by (induction xs) auto

text \<open>
  C3. With a category as filter, every record of the projection has that category and the
  projection holds exactly the records of the collection with that category, each as
  many times as the collection holds it (once, for a record the collection holds once);
  with the sentinel, the projection holds exactly the records of the collection.
\<close>

theorem filteredSorted_filter:
  "(\<forall>e\<in>set (filteredSorted lc es (Only c) key dir). category e = c) \<and>
   mset (filteredSorted lc es (Only c) key dir) = filter_mset (\<lambda>e. category e = c) (mset es) \<and>
   (\<forall>e. category e = c \<longrightarrow>
      count_list (filteredSorted lc es (Only c) key dir) e = count_list es e) \<and>
   mset (filteredSorted lc es Vse key dir) = mset es \<and>
   (\<forall>e. count_list (filteredSorted lc es Vse key dir) e = count_list es e)"
proof -
  have m: "mset (filteredSorted lc es (Only c) key dir) = filter_mset (\<lambda>e. category e = c) (mset es)"
    by (simp add: filteredSorted_def byCategory_def)
  have v: "mset (filteredSorted lc es Vse key dir) = mset es"
    by (simp add: filteredSorted_def byCategory_def)
  have c1: "count_list (filteredSorted lc es (Only c) key dir) e = count_list es e"
    if "category e = c" for e
    using that arg_cong [OF m, of "\<lambda>M. count M e"] by (simp add: count_mset)
  have c2: "count_list (filteredSorted lc es Vse key dir) e = count_list es e" for e
    using arg_cong [OF v, of "\<lambda>M. count M e"] by (simp add: count_mset)
  have s: "\<forall>e\<in>set (filteredSorted lc es (Only c) key dir). category e = c"
    by (simp add: filteredSorted_def byCategory_def)
  show ?thesis using m v c1 c2 s by blast
qed

theorem filteredSorted_filter_witness:
  "set (filteredSorted codeUnitCollation [taxi, coffee, bus] (Only Transport) SortDate Desc)
     = {taxi, bus} \<and>
   category taxi = Transport \<and> category bus = Transport \<and>
   count_list (filteredSorted codeUnitCollation [taxi, coffee, bus] (Only Transport) SortDate Desc) bus = 1 \<and>
   count_list (filteredSorted codeUnitCollation [taxi, coffee, bus] (Only Transport) SortDate Desc) coffee = 0 \<and>
   count_list (filteredSorted codeUnitCollation [taxi, coffee, bus] Vse SortDate Desc) coffee = 1"
proof -
  let ?out = "filteredSorted codeUnitCollation [taxi, coffee, bus] (Only Transport) SortDate Desc"
  note th = filteredSorted_filter [of codeUnitCollation "[taxi, coffee, bus]" Transport SortDate Desc]
  have c: "category bus = Transport" "category taxi = Transport" "category coffee = Eda"
    by (simp_all add: bus_def taxi_def coffee_def)
  have n: "count_list [taxi, coffee, bus] bus = 1" "count_list [taxi, coffee, bus] coffee = 1"
    by (simp_all add: example_defs)
  have "mset ?out = filter_mset (\<lambda>e. category e = Transport) (mset [taxi, coffee, bus])"
    using th by blast
  then have "set_mset (mset ?out) = set_mset (filter_mset (\<lambda>e. category e = Transport) (mset [taxi, coffee, bus]))"
    by (simp only:)
  then have s: "set ?out = {taxi, bus}"
    using c by auto
  have "coffee \<notin> {taxi, bus}" by (simp add: example_defs)
  then have z: "count_list ?out coffee = 0" using s by (simp add: count_list_0_iff)
  show ?thesis using th c n s z by simp
qed

lemma fl_201_2: "fl (201 / 2) = Fin (201 / 2)"
  using fl_nearest [of "201 / 2" 6 "201 * 2 ^ 45"] by (simp add: pow2_def)

lemma cmpSign_range: "cmpSign v = - 1 \<or> cmpSign v = 0 \<or> cmpSign v = 1"
  by (simp add: cmpSign_def)


lemma comparesEqual_sign: "comparesEqual v \<longleftrightarrow> cmpSign v = 0"
  by (simp add: comparesEqual_def cmpSign_def)



lemma consistent_facts:
  assumes "consistentComparator cmp xs" "a \<in> set xs" "b \<in> set xs" "c \<in> set xs"
  shows "cmpSign (cmp a a) = 0"
    and "cmpSign (cmp a b) = 0 \<Longrightarrow> cmpSign (cmp b a) = 0"
    and "cmpSign (cmp a b) = 0 \<Longrightarrow> cmpSign (cmp b c) = 0 \<Longrightarrow> cmpSign (cmp a c) = 0"
    and "cmpSign (cmp a b) = - 1 \<Longrightarrow> cmpSign (cmp b c) = - 1 \<Longrightarrow> cmpSign (cmp a c) = - 1"
    and "cmpSign (cmp a b) = 1 \<Longrightarrow> cmpSign (cmp b c) = 1 \<Longrightarrow> cmpSign (cmp a c) = 1"
  using assms unfolding consistentComparator_def by blast+


lemma consistent_less_greater:
  assumes c: "consistentComparator cmp xs" and a: "a \<in> set xs" and b: "b \<in> set xs"
    and l: "cmpSign (cmp a b) = - 1"
  shows "cmpSign (cmp b a) = 1"
proof -
  have "cmpSign (cmp b a) \<noteq> 0"
    using consistent_facts(2) [OF c b a a] l by auto
  moreover have "cmpSign (cmp b a) \<noteq> - 1"
  proof
    assume "cmpSign (cmp b a) = - 1"
    then have "cmpSign (cmp a a) = - 1" using consistent_facts(4) [OF c a b a] l by simp
    then show False using consistent_facts(1) [OF c a a a] by simp
  qed
  ultimately show ?thesis using cmpSign_range [of "cmp b a"] by auto
qed


lemma consistent_by_key:
  fixes k :: "'a \<Rightarrow> 'b::linorder"
  assumes "\<And>a b. a \<in> set xs \<Longrightarrow> b \<in> set xs \<Longrightarrow>
     cmpSign (cmp a b) = (if k a < k b then - 1 else if k b < k a then 1 else 0)"
  shows "consistentComparator cmp xs"
  unfolding consistentComparator_def
proof (intro ballI)
  fix a b c assume m: "a \<in> set xs" "b \<in> set xs" "c \<in> set xs"
  have ab: "cmpSign (cmp a b) = (if k a < k b then - 1 else if k b < k a then 1 else 0)"
    and ba: "cmpSign (cmp b a) = (if k b < k a then - 1 else if k a < k b then 1 else 0)"
    and bc: "cmpSign (cmp b c) = (if k b < k c then - 1 else if k c < k b then 1 else 0)"
    and ac: "cmpSign (cmp a c) = (if k a < k c then - 1 else if k c < k a then 1 else 0)"
    and aa: "cmpSign (cmp a a) = 0"
    using m by (simp_all add: assms)
  show "cmpSign (cmp a a) = 0 \<and>
        (cmpSign (cmp a b) = 0 \<longrightarrow> cmpSign (cmp b a) = 0) \<and>
        (cmpSign (cmp a b) = 0 \<and> cmpSign (cmp b c) = 0 \<longrightarrow> cmpSign (cmp a c) = 0) \<and>
        (cmpSign (cmp a b) = - 1 \<and> cmpSign (cmp b c) = - 1 \<longrightarrow> cmpSign (cmp a c) = - 1) \<and>
        (cmpSign (cmp a b) = 1 \<and> cmpSign (cmp b c) = 1 \<longrightarrow> cmpSign (cmp a c) = 1)"
    unfolding ab ba bc ac aa by (auto split: if_splits)
qed


lemma consistent_amount_examples:
  "consistentComparator (compareFn lc SortAmount Asc) [taxi, coffee, bus]"
proof (rule consistent_by_key [where k = "\<lambda>e. case amount e of Fin q \<Rightarrow> q | _ \<Rightarrow> 0"])
  fix a b
  assume "a \<in> set [taxi, coffee, bus]" "b \<in> set [taxi, coffee, bus]"
  then have "(a = taxi \<or> a = coffee \<or> a = bus) \<and> (b = taxi \<or> b = coffee \<or> b = bus)"
    by simp
  then show "cmpSign (compareFn lc SortAmount Asc a b) =
      (if (case amount a of Fin q \<Rightarrow> q | _ \<Rightarrow> 0) < (case amount b of Fin q \<Rightarrow> q | _ \<Rightarrow> 0) then - 1
       else if (case amount b of Fin q \<Rightarrow> q | _ \<Rightarrow> 0) < (case amount a of Fin q \<Rightarrow> q | _ \<Rightarrow> 0) then 1
       else 0)"
    by (elim conjE disjE)
       (simp_all add: compareFn_def Let_def cmpSign_def taxi_def coffee_def bus_def
         fl_201_2 fl_minus fl_def [of 0])
qed

lemma precedes_insertSorted:
  "precedes a b ys \<Longrightarrow> precedes a b (insertSorted cmp x ys)"
  by (induction ys) auto

lemma precedes_insertSorted_new:
  "b \<in> set ys \<Longrightarrow> \<not> comesAfter cmp a b \<Longrightarrow> precedes a b (insertSorted cmp a ys)"
  by (induction ys) auto

lemma Array_sort_stable:
  "precedes a b xs \<Longrightarrow> \<not> comesAfter cmp a b \<Longrightarrow> precedes a b (Array_sort cmp xs)"
  by (induction xs) (auto simp: precedes_insertSorted precedes_insertSorted_new)

lemma precedes_in_set: "precedes a b xs \<Longrightarrow> a \<in> set xs \<and> b \<in> set xs"
  by (induction xs) auto

lemma precedes_distinct:
  "distinct xs \<Longrightarrow> precedes a b xs \<Longrightarrow> \<not> precedes b a xs"
proof (induction xs)
  case Nil
  then show ?case by simp
next
  case (Cons x xs)
  from Cons.prems(2) show ?case
  proof (simp, elim disjE conjE)
    assume "x = a" "b \<in> set xs"
    then have "b \<noteq> x" "\<not> precedes b a xs"
      using Cons.prems(1) precedes_in_set [of b a xs] by auto
    then show "(x = b \<longrightarrow> a \<notin> set xs) \<and> \<not> precedes b a xs" by simp
  next
    assume p: "precedes a b xs"
    then have "a \<in> set xs" "\<not> precedes b a xs"
      using Cons.IH Cons.prems(1) precedes_in_set [of a b xs] by auto
    then show "(x = b \<longrightarrow> a \<notin> set xs) \<and> \<not> precedes b a xs"
      using Cons.prems(1) precedes_in_set [of a b xs] p by auto
  qed
qed

lemma distinct_Array_sort: "distinct (Array_sort cmp xs) = distinct xs"
proof -
  have "mset (Array_sort cmp xs) = mset xs" by simp
  then show ?thesis by (rule mset_eq_imp_distinct_iff)
qed

lemma distinct_byCategory: "distinct es \<Longrightarrow> distinct (byCategory es fc)"
  by (simp add: byCategory_def)

text \<open>
  C4. The sort is stable. For a comparator that is consistent on the filtered
  collection, whatever the key and the direction: if a record comes before another in the
  filtered collection and the comparator answers 0 for the pair, it comes before it in
  the projection; and when the records of the collection are distinct, the second does
  not come before the first there. The projection is a function of the collection, the
  filter, the key and the direction.
\<close>

theorem filteredSorted_stable:
  assumes "consistentComparator (compareFn lc key dir) (byCategory es fc)"
    and "precedes a b (byCategory es fc)"
    and "comparesEqual (compareFn lc key dir a b)"
  shows "precedes a b (filteredSorted lc es fc key dir) \<and>
         (distinct es \<longrightarrow> \<not> precedes b a (filteredSorted lc es fc key dir))"
proof -
  have n: "\<not> comesAfter (compareFn lc key dir) a b"
    using assms(3) by (simp add: comparesEqual_def comesAfter_def)
  have p: "precedes a b (filteredSorted lc es fc key dir)"
    unfolding filteredSorted_def using assms(2) n by (rule Array_sort_stable)
  have "\<not> precedes b a (filteredSorted lc es fc key dir)" if "distinct es"
  proof -
    have "distinct (filteredSorted lc es fc key dir)"
      using that by (simp add: filteredSorted_def distinct_Array_sort distinct_byCategory)
    then show ?thesis using p by (rule precedes_distinct)
  qed
  then show ?thesis using p by simp
qed

theorem filteredSorted_stable_witness:
  "precedes taxi bus (filteredSorted codeUnitCollation [taxi, coffee, bus] Vse SortAmount Asc) \<and>
   \<not> precedes bus taxi (filteredSorted codeUnitCollation [taxi, coffee, bus] Vse SortAmount Asc)"
proof -
  have b0: "byCategory [taxi, coffee, bus] Vse = [taxi, coffee, bus]"
    by (simp add: byCategory_def)
  have c: "consistentComparator (compareFn codeUnitCollation SortAmount Asc)
      (byCategory [taxi, coffee, bus] Vse)"
    unfolding b0 by (rule consistent_amount_examples)
  have a: "precedes taxi bus (byCategory [taxi, coffee, bus] Vse)"
    unfolding b0 by simp
  have b: "comparesEqual (compareFn codeUnitCollation SortAmount Asc taxi bus)"
    by (simp add: comparesEqual_def compareFn_def Let_def taxi_def bus_def fl_def)
  have d: "distinct [taxi, coffee, bus]"
    by (simp add: example_defs)
  show ?thesis using filteredSorted_stable [OF c a b] d by simp
qed










section \<open>The order of the stored collection\<close>

lemma expenses_submit:
  assumes "accepted s"
  shows "expenses (submit s st) = created s # expenses st"
proof -
  have p: "\<not> Number_isNaN (parseAmount (sub_amount s))"
    "\<not> js_le (parseAmount (sub_amount s)) (Fin 0)"
    using assms positive_not_rejected [of "parseAmount (sub_amount s)"]
    by (simp_all add: accepted_def)
  have t: "trim (sub_description s) \<noteq> []" "sub_date s \<noteq> []"
    using assms by (simp_all add: accepted_def trim_empty_iff list_all_iff)
  show ?thesis
    using p t by (simp add: submit_def handleAdd_def fillForm_def resetForm_def created_def Let_def)
qed

lemma expenses_submitAll:
  "\<forall>s\<in>set ss. accepted s \<Longrightarrow> expenses (submitAll ss st) = rev (map created ss) @ expenses st"
proof (induction ss arbitrary: st)
  case Nil
  then show ?case by (simp add: submitAll_def)
next
  case (Cons s ss)
  have "expenses (submitAll (s # ss) st) = expenses (submitAll ss (submit s st))"
    by (simp add: submitAll_def)
  also have "\<dots> = rev (map created ss) @ expenses (submit s st)"
    using Cons.prems by (intro Cons.IH) simp
  also have "\<dots> = rev (map created (s # ss)) @ expenses st"
    using Cons.prems by (simp add: expenses_submit)
  finally show ?case .
qed

lemma accepted_examples: "accepted firstSubmission" "accepted secondSubmission"
  by (simp_all add: accepted_def firstSubmission_def secondSubmission_def parseAmount_199_5)
     (simp_all add: kofe_def ascii_def isWhiteSpace_def)

text \<open>
  C6. The stored collection is in the reverse of the creation order: after a sequence of
  successful additions from the empty collection, it is the list of the created records,
  newest first; the latest record is first and the earliest is last.
\<close>

theorem stored_order_newest_first:
  assumes "\<forall>s\<in>set ss. accepted s"
  shows "expenses (submitAll ss (initialHome today)) = rev (map created ss) \<and>
         (ss \<noteq> [] \<longrightarrow>
            hd (expenses (submitAll ss (initialHome today))) = created (last ss) \<and>
            last (expenses (submitAll ss (initialHome today))) = created (hd ss))"
proof -
  have e: "expenses (submitAll ss (initialHome today)) = rev (map created ss)"
    using expenses_submitAll [OF assms, of "initialHome today"] by (simp add: initialHome_def)
  show ?thesis
    unfolding e by (simp add: hd_rev last_rev last_map hd_map)
qed

theorem stored_order_newest_first_witness:
  "expenses (submitAll [firstSubmission, secondSubmission] (initialHome (ascii ''2024-02-01'')))
     = [created secondSubmission, created firstSubmission]"
proof -
  have "\<forall>s\<in>set [firstSubmission, secondSubmission]. accepted s"
    by (simp add: accepted_examples)
  from stored_order_newest_first [OF this] show ?thesis by simp
qed

text \<open>
  After two additions the first record of the stored collection is not the one created
  earliest, and the last is not the one created latest.
\<close>

theorem stored_order_counterexample:
  "accepted firstSubmission \<and> accepted secondSubmission \<and>
   hd (expenses (submitAll [firstSubmission, secondSubmission] (initialHome (ascii ''2024-02-01''))))
     \<noteq> created firstSubmission \<and>
   last (expenses (submitAll [firstSubmission, secondSubmission] (initialHome (ascii ''2024-02-01''))))
     \<noteq> created secondSubmission"
proof -
  have a: "\<forall>s\<in>set [firstSubmission, secondSubmission]. accepted s"
    by (simp add: accepted_examples)
  have e: "expenses (submitAll [firstSubmission, secondSubmission] (initialHome (ascii ''2024-02-01'')))
     = [created secondSubmission, created firstSubmission]"
    using expenses_submitAll [OF a, of "initialHome (ascii ''2024-02-01'')"]
    by (simp add: initialHome_def)
  have n: "created secondSubmission \<noteq> created firstSubmission"
    by (simp add: created_def firstSubmission_def secondSubmission_def ascii_def)
  show ?thesis using n by (simp add: e accepted_examples)
qed

section \<open>Writing and reading back\<close>

lemma categoryLabel_inject: "categoryLabel c = categoryLabel d \<Longrightarrow> c = d"
  by (cases c; cases d) simp_all

lemma Expense_value_inject: "Expense_value a = Expense_value b \<Longrightarrow> a = b"
  by (cases a, cases b) (auto simp: Expense_value_def dest: categoryLabel_inject)

lemma expenses_value_inject: "expenses_value a = expenses_value b \<Longrightarrow> a = b"
proof -
  have "inj Expense_value" by (rule injI) (rule Expense_value_inject)
  then show "expenses_value a = expenses_value b \<Longrightarrow> a = b"
    by (simp add: expenses_value_def inj_map_eq_map)
qed

lemma parse_stringify_Expense:
  assumes "Number_isFinite (amount e)"
  shows "JSON_parse (JSON_stringify (Expense_value e)) = Expense_value e"
proof -
  obtain q where "amount e = Fin q" using assms by (cases "amount e") simp_all
  then show ?thesis by (simp add: Expense_value_def ascii_def)
qed

lemma parse_stringify_expenses:
  "\<forall>e\<in>set es. Number_isFinite (amount e) \<Longrightarrow>
   JSON_parse (JSON_stringify (expenses_value es)) = expenses_value es"
  by (induction es) (simp_all add: expenses_value_def parse_stringify_Expense)

lemma parseAmount_Infinity: "parseAmount (ascii ''Infinity'') = PInf"
  by (simp add: parse_defs)

text \<open>
  C7. For a collection whose amounts are all finite (the empty one included), what the
  page reads back from the slot it wrote is the value of that collection, and of no other
  collection: the same records, in the same order, with the same ids and fields.
\<close>

theorem persist_load_roundtrip:
  assumes "\<forall>e\<in>set es. Number_isFinite (amount e)"
  shows "loadExpenses (persist es) current = expenses_value es \<and>
         (\<forall>es'. loadExpenses (persist es) current = expenses_value es' \<longrightarrow> es' = es)"
proof -
  have "loadExpenses (persist es) current = expenses_value es"
    using parse_stringify_expenses [OF assms] by (simp add: loadExpenses_def persist_def)
  then show ?thesis using expenses_value_inject by auto
qed

theorem persist_load_roundtrip_witness:
  "loadExpenses (persist [taxi, coffee]) (expenses_value []) = expenses_value [taxi, coffee] \<and>
   loadExpenses (persist []) (expenses_value []) = expenses_value []"
proof -
  have a: "\<forall>e\<in>set [taxi, coffee]. Number_isFinite (amount e)"
    by (simp add: taxi_def coffee_def)
  have b: "\<forall>e\<in>set ([] :: Expense list). Number_isFinite (amount e)" by simp
  show ?thesis
    using persist_load_roundtrip [OF a, of "expenses_value []"]
      persist_load_roundtrip [OF b, of "expenses_value []"]
    by simp
qed

text \<open>
  An amount that is not finite does not come back. The input \<open>Infinity\<close> passes the
  checks of \<open>handleAdd\<close>, the record stored has the amount \<open>Infinity\<close>, JSON writes it as
  \<open>null\<close>, and the record read back has \<open>null\<close> for amount.
\<close>

theorem persist_load_counterexample:
  "expenses (handleAdd (ascii ''id-3'') (ascii ''2024-02-02'') (exampleForm (ascii ''Infinity'')))
     = [roundedCoffee\<lparr>amount := PInf\<rparr>] \<and>
   loadExpenses (persist [roundedCoffee\<lparr>amount := PInf\<rparr>]) (expenses_value [])
     \<noteq> expenses_value [roundedCoffee\<lparr>amount := PInf\<rparr>] \<and>
   loadExpenses (persist [roundedCoffee\<lparr>amount := PInf\<rparr>]) (expenses_value [])
     = VArray [VObject
         [(ascii ''id'', VString (ascii ''id-3'')),
          (ascii ''description'', VString kofe),
          (ascii ''category'', VString (categoryLabel Eda)),
          (ascii ''date'', VString (ascii ''2024-01-05'')),
          (ascii ''amount'', VNull)]]"
proof -
  have t: "trim kofe = kofe"
    by (simp add: trim_def kofe_def isWhiteSpace_def)
  have a: "expenses (handleAdd (ascii ''id-3'') (ascii ''2024-02-02'') (exampleForm (ascii ''Infinity'')))
     = [roundedCoffee\<lparr>amount := PInf\<rparr>]"
    by (simp add: handleAdd_def Let_def exampleForm_def fillForm_def initialHome_def
        resetForm_def parseAmount_Infinity roundAmount_def roundedCoffee_def coffee_def t)
       (simp add: kofe_def ascii_def)
  have b: "loadExpenses (persist [roundedCoffee\<lparr>amount := PInf\<rparr>]) (expenses_value [])
     = VArray [VObject
         [(ascii ''id'', VString (ascii ''id-3'')),
          (ascii ''description'', VString kofe),
          (ascii ''category'', VString (categoryLabel Eda)),
          (ascii ''date'', VString (ascii ''2024-01-05'')),
          (ascii ''amount'', VNull)]]"
    by (simp add: loadExpenses_def persist_def expenses_value_def Expense_value_def
        roundedCoffee_def coffee_def ascii_def)
  have c: "expenses_value [roundedCoffee\<lparr>amount := PInf\<rparr>]
     = VArray [VObject
         [(ascii ''id'', VString (ascii ''id-3'')),
          (ascii ''description'', VString kofe),
          (ascii ''category'', VString (categoryLabel Eda)),
          (ascii ''date'', VString (ascii ''2024-01-05'')),
          (ascii ''amount'', VNumber PInf)]]"
    by (simp add: expenses_value_def Expense_value_def roundedCoffee_def coffee_def)
  show ?thesis by (simp add: a b c)
qed

end
